theory Spec2Isabelle
  imports Complex_Main
begin

section \<open>Record types of the store (types.ts)\<close>

text \<open>
  Timestamps are the ISO strings that \<^verbatim>\<open>new Date().toISOString()\<close> returns. A JavaScript
  number that is only copied (image size, weight) is a \<^typ>\<open>real\<close>; a counter is a
  \<^typ>\<open>nat\<close>. A value that may be \<^verbatim>\<open>null\<close> is an \<^typ>\<open>'a option\<close>.
  Field names carry a prefix where two interfaces of the source share a name.
\<close>

type_synonym timestamp = string

datatype BackupStatus = Complete | Partial | InProgress | Paused | Never

record Storefront =
  sf_id :: string
  sf_domain :: string
  last_backup_at :: "timestamp option"
  backup_status :: BackupStatus
  product_count :: nat
  size_bytes :: nat
  sf_created_at :: timestamp

record ProductImage =
  url :: string
  alt :: "string option"
  width :: real
  height :: real

record ProductVariant =
  v_id :: string
  v_title :: string
  sku :: string
  price :: string
  compare_at_price :: "string option"
  inventory_policy :: "string option"
  weight :: "real option"
  weight_unit :: "string option"
  option1 :: "string option"
  option2 :: "string option"
  option3 :: "string option"

record Product =
  p_id :: string
  p_storefront_id :: string
  shopify_id :: string
  title :: string
  handle :: string
  description_html :: string
  vendor :: string
  product_type :: string
  tags :: "string list"
  images :: "ProductImage list"
  variants :: "ProductVariant list"
  created_at :: timestamp
  updated_at :: timestamp
  sniffer_updated_at :: timestamp
  removed_at :: "timestamp option"

record BackupCursor =
  c_storefront_id :: string
  cursor :: "string option"
  started_at :: timestamp
  products_fetched :: nat
  total_products :: "nat option"

section \<open>The page records of the catalog API (backup.ts, Gql interfaces)\<close>

text \<open>
  The response body is cast to \<^verbatim>\<open>GqlResponse\<close> without a check, so a page record is
  whatever JSON the server sent. The model keeps the scalars as the interfaces type them and
  makes every nested object or array that \<^verbatim>\<open>transformProduct\<close> dereferences optional:
  \<^const>\<open>None\<close> stands for a field that is missing (or \<^verbatim>\<open>null\<close>) in the JSON.
  The interfaces declare all of them required except \<^verbatim>\<open>compareAtPrice\<close>.
\<close>

record GqlMoney =
  amount :: string
  currencyCode :: string

record GqlSelectedOption =
  opt_name :: string
  opt_value :: string

record GqlVariantNode =
  gv_id :: string
  gv_title :: string
  gv_sku :: string
  gv_price :: "GqlMoney option"
  compareAtPrice :: "GqlMoney option"
  gv_weight :: "real option"
  weightUnit :: "string option"
  selectedOptions :: "GqlSelectedOption list option"

record GqlImageNode =
  gi_url :: string
  altText :: "string option"
  gi_width :: real
  gi_height :: real

record 'a GqlConnection =
  nodes :: "'a list option"

record GqlProductNode =
  g_id :: string
  g_title :: string
  g_handle :: string
  descriptionHtml :: string
  g_vendor :: string
  productType :: string
  g_tags :: "string list"
  createdAt :: timestamp
  updatedAt :: timestamp
  g_images :: "GqlImageNode GqlConnection option"
  g_variants :: "GqlVariantNode GqlConnection option"

section \<open>Exceptions\<close>

text \<open>
  A thrown value is an \<^verbatim>\<open>Error\<close> object with its name and message, or any other value,
  kept as the string \<^verbatim>\<open>String(error)\<close> gives.
\<close>

datatype exn = Error string string | Thrown string

text \<open>
  The error of reading a property of a value that is missing, with the message V8 gives it
  (the property between single quotes). The records of a page do not tell a property that is
  \<^verbatim>\<open>null\<close> from one that is missing; for \<^verbatim>\<open>null\<close> the message says \<^verbatim>\<open>null\<close> where
  this one says \<^verbatim>\<open>undefined\<close>.
\<close>

definition type_error :: "string \<Rightarrow> exn" where
  "type_error prop =
     Error ''TypeError''
       (''Cannot read properties of undefined (reading '' @ [CHR 0x27] @ prop @ [CHR 0x27]
          @ '')'')"

text \<open>\<^verbatim>\<open>Array.prototype.map\<close> with a callback that may throw: the first throw ends the map.\<close>

fun map_throw :: "('a \<Rightarrow> exn + 'b) \<Rightarrow> 'a list \<Rightarrow> exn + 'b list" where
  "map_throw f [] = Inr []"
| "map_throw f (x # xs) =
     (case f x of
        Inl e \<Rightarrow> Inl e
      | Inr y \<Rightarrow> (case map_throw f xs of Inl e \<Rightarrow> Inl e | Inr ys \<Rightarrow> Inr (y # ys)))"

section \<open>Transform (backup.ts, transformProduct)\<close>

text \<open>\<^verbatim>\<open>gid.split('/')\<close>: the pieces between the slashes, never an empty array.\<close>

fun split_slash :: "string \<Rightarrow> string list" where
  "split_slash [] = [[]]"
| "split_slash (c # cs) =
     (if c = CHR ''/'' then [] # split_slash cs
      else (case split_slash cs of [] \<Rightarrow> [[c]] | p # ps \<Rightarrow> (c # p) # ps))"

definition extractShopifyId :: "string \<Rightarrow> string" where
  "extractShopifyId gid = last (split_slash gid)"

text \<open>\<^verbatim>\<open>xs[i]?.value ?? null\<close>: an index past the end gives \<^verbatim>\<open>undefined\<close>, hence null.\<close>

definition option_at :: "GqlSelectedOption list \<Rightarrow> nat \<Rightarrow> string option" where
  "option_at xs i = (if i < length xs then Some (opt_value (xs ! i)) else None)"

definition transformImage :: "GqlImageNode \<Rightarrow> ProductImage" where
  "transformImage img =
     \<lparr>url = gi_url img, alt = altText img, width = gi_width img, height = gi_height img\<rparr>"

definition transformVariant :: "GqlVariantNode \<Rightarrow> exn + ProductVariant" where
  "transformVariant v =
     (case gv_price v of
        None \<Rightarrow> Inl (type_error ''amount'')
      | Some pr \<Rightarrow>
          (case selectedOptions v of
             None \<Rightarrow> Inl (type_error ''0'')
           | Some opts \<Rightarrow>
               Inr \<lparr>v_id = gv_id v, v_title = gv_title v, sku = gv_sku v,
                    price = amount pr,
                    compare_at_price = map_option amount (compareAtPrice v),
                    inventory_policy = None,
                    weight = gv_weight v, weight_unit = weightUnit v,
                    option1 = option_at opts 0,
                    option2 = option_at opts 1,
                    option3 = option_at opts 2\<rparr>))"

text \<open>\<^verbatim>\<open>conn.nodes.map(f)\<close> on a connection that may be missing, or have no \<^verbatim>\<open>nodes\<close>.\<close>

definition map_nodes :: "('a \<Rightarrow> exn + 'b) \<Rightarrow> 'a GqlConnection option \<Rightarrow> exn + 'b list" where
  "map_nodes f conn =
     (case conn of
        None \<Rightarrow> Inl (type_error ''nodes'')
      | Some c \<Rightarrow>
          (case nodes c of
             None \<Rightarrow> Inl (type_error ''map'')
           | Some ns \<Rightarrow> map_throw f ns))"

text \<open>
  \<^verbatim>\<open>transformProduct(storefrontId, node)\<close>. The source reads the clock for
  \<^verbatim>\<open>sniffer_updated_at\<close>; the reading is the argument \<open>now\<close>. \<^const>\<open>Inl\<close> is the
  \<^verbatim>\<open>TypeError\<close> thrown on a missing nested object.
\<close>

definition transformProduct :: "string \<Rightarrow> timestamp \<Rightarrow> GqlProductNode \<Rightarrow> exn + Product" where
  "transformProduct storefrontId now node =
     (let shopifyId = extractShopifyId (g_id node) in
      case map_nodes (\<lambda>img. Inr (transformImage img)) (g_images node) of
        Inl e \<Rightarrow> Inl e
      | Inr imgs \<Rightarrow>
          (case map_nodes transformVariant (g_variants node) of
             Inl e \<Rightarrow> Inl e
           | Inr vars \<Rightarrow>
               Inr \<lparr>p_id = storefrontId @ ''::'' @ g_id node,
                    p_storefront_id = storefrontId,
                    shopify_id = shopifyId,
                    title = g_title node,
                    handle = g_handle node,
                    description_html = descriptionHtml node,
                    vendor = g_vendor node,
                    product_type = productType node,
                    tags = g_tags node,
                    images = imgs,
                    variants = vars,
                    created_at = createdAt node,
                    updated_at = updatedAt node,
                    sniffer_updated_at = now,
                    removed_at = None\<rparr>))"

section \<open>The response of the catalog API\<close>

record GqlPageInfo =
  hasNextPage :: bool
  endCursor :: "string option"

text \<open>\<^verbatim>\<open>data.products\<close> of \<^verbatim>\<open>GqlProductsData\<close>: the page info and the page records.\<close>

record GqlProductsData =
  pageInfo :: GqlPageInfo
  page_nodes :: "GqlProductNode list"

text \<open>
  \<^verbatim>\<open>extensions?: { code?: string }\<close>: \<^term>\<open>None\<close> is no \<^verbatim>\<open>extensions\<close>,
  \<^term>\<open>Some None\<close> is \<^verbatim>\<open>extensions\<close> without a \<^verbatim>\<open>code\<close>.
\<close>

record GqlError =
  message :: string
  extensions :: "string option option"

record GqlResponse =
  data :: "GqlProductsData option"
  errors :: "GqlError list option"

datatype LogLevel = LInfo | LWarn | LError

text \<open>The values that the engine stores in the \<^verbatim>\<open>detail\<close> object of a log entry.\<close>

datatype jsval = JNull | JNum nat | JStr string | JBody GqlResponse | JErrors "GqlError list"

record LogEntry =
  l_id :: nat
  l_storefront_id :: string
  l_timestamp :: timestamp
  level :: LogLevel
  l_message :: string
  detail :: "(string \<times> jsval) list option"

section \<open>The store (db.ts)\<close>

text \<open>
  An object store with a \<^verbatim>\<open>keyPath\<close> is the list of its records; the key of a record
  is read from the record. \<^verbatim>\<open>get\<close> finds the record with the key, \<^verbatim>\<open>put\<close> replaces
  the record with the same key or adds the record, \<^verbatim>\<open>delete\<close> removes it.
\<close>

definition tbl_get :: "('r \<Rightarrow> 'k) \<Rightarrow> 'r list \<Rightarrow> 'k \<Rightarrow> 'r option" where
  "tbl_get key tbl k = find (\<lambda>r. key r = k) tbl"

fun tbl_put :: "('r \<Rightarrow> 'k) \<Rightarrow> 'r \<Rightarrow> 'r list \<Rightarrow> 'r list" where
  "tbl_put key r [] = [r]"
| "tbl_put key r (x # xs) = (if key x = key r then r # xs else x # tbl_put key r xs)"

definition tbl_delete :: "('r \<Rightarrow> 'k) \<Rightarrow> 'k \<Rightarrow> 'r list \<Rightarrow> 'r list" where
  "tbl_delete key k tbl = filter (\<lambda>r. key r \<noteq> k) tbl"

record db =
  storefronts :: "Storefront list"
  products :: "Product list"
  backup_cursors :: "BackupCursor list"
  logs :: "LogEntry list"
  next_log_id :: nat

definition db_getStorefront :: "string \<Rightarrow> db \<Rightarrow> Storefront option" where
  "db_getStorefront k d = tbl_get sf_id (storefronts d) k"

definition db_putStorefront :: "Storefront \<Rightarrow> db \<Rightarrow> db" where
  "db_putStorefront sf d = d\<lparr>storefronts := tbl_put sf_id sf (storefronts d)\<rparr>"

definition db_getProduct :: "string \<Rightarrow> db \<Rightarrow> Product option" where
  "db_getProduct k d = tbl_get p_id (products d) k"

text \<open>\<^verbatim>\<open>putProducts\<close>: one transaction that puts the products in their order.\<close>

definition db_putProducts :: "Product list \<Rightarrow> db \<Rightarrow> db" where
  "db_putProducts ps d = d\<lparr>products := foldl (\<lambda>tbl p. tbl_put p_id p tbl) (products d) ps\<rparr>"

definition db_getProductsByStorefront :: "string \<Rightarrow> db \<Rightarrow> Product list" where
  "db_getProductsByStorefront storefrontId d =
     filter (\<lambda>p. p_storefront_id p = storefrontId) (products d)"

definition db_getProductCount :: "string \<Rightarrow> db \<Rightarrow> nat" where
  "db_getProductCount storefrontId d =
     length (filter (\<lambda>p. p_storefront_id p = storefrontId) (products d))"

text \<open>
  \<^verbatim>\<open>markProductsRemoved\<close>: the cursor walks the records of the storefront and updates,
  in place, each one that is not in \<open>activeIds\<close> and has no \<^verbatim>\<open>removed_at\<close> yet.
\<close>

definition db_markProductsRemoved :: "string \<Rightarrow> string set \<Rightarrow> timestamp \<Rightarrow> db \<Rightarrow> db" where
  "db_markProductsRemoved storefrontId activeIds ts d =
     d\<lparr>products :=
         map (\<lambda>product.
                if p_storefront_id product = storefrontId
                   \<and> p_id product \<notin> activeIds \<and> removed_at product = None
                then product\<lparr>removed_at := Some ts\<rparr>
                else product)
             (products d)\<rparr>"

definition db_getBackupCursor :: "string \<Rightarrow> db \<Rightarrow> BackupCursor option" where
  "db_getBackupCursor k d = tbl_get c_storefront_id (backup_cursors d) k"

definition db_putBackupCursor :: "BackupCursor \<Rightarrow> db \<Rightarrow> db" where
  "db_putBackupCursor c d = d\<lparr>backup_cursors := tbl_put c_storefront_id c (backup_cursors d)\<rparr>"

definition db_deleteBackupCursor :: "string \<Rightarrow> db \<Rightarrow> db" where
  "db_deleteBackupCursor k d = d\<lparr>backup_cursors := tbl_delete c_storefront_id k (backup_cursors d)\<rparr>"

text \<open>\<^verbatim>\<open>addLog\<close>: the store gives the entry the next auto-increment id.\<close>

definition db_addLog :: "LogEntry \<Rightarrow> db \<Rightarrow> db" where
  "db_addLog entry d =
     d\<lparr>logs := logs d @ [entry\<lparr>l_id := next_log_id d\<rparr>], next_log_id := Suc (next_log_id d)\<rparr>"

text \<open>
  \<^verbatim>\<open>estimateStorefrontSize\<close>: the byte length of \<^verbatim>\<open>JSON.stringify(products)\<close>, an
  array: two brackets, the encodings of the elements and the commas between them. The
  encoding of one product is JavaScript's; its length is the parameter \<open>bytes\<close>.
\<close>

definition json_array_size :: "('a \<Rightarrow> nat) \<Rightarrow> 'a list \<Rightarrow> nat" where
  "json_array_size bytes xs = 2 + sum_list (map bytes xs) + (length xs - 1)"

section \<open>JavaScript numbers\<close>

text \<open>
  A \<^verbatim>\<open>number\<close> that the engine computes with: a double. The values met here are
  \<^verbatim>\<open>NaN\<close>, the two infinities and the doubles that are integers (\<open>-0\<close> is not told
  from \<open>0\<close>).
\<close>

datatype number = NaN | Num int | Infinity | NegInfinity

text \<open>
  The number of binary digits of a positive integer, and the rounding of an integer that is
  not negative to the nearest one with at most 53 significant binary digits, a tie going to
  the even one.
\<close>

function bit_length :: "int \<Rightarrow> nat" where
  "bit_length n = (if n \<le> 0 then 0 else Suc (bit_length (n div 2)))"
  by pat_completeness auto
termination
  by (relation "measure nat") auto

declare bit_length.simps [simp del]

definition round_double :: "int \<Rightarrow> int" where
  "round_double m =
     (let e = bit_length m - 53; q = m div 2 ^ e; r = m mod 2 ^ e
      in if 2 ^ e < 2 * r \<or> (2 * r = 2 ^ e \<and> odd q) then (q + 1) * 2 ^ e else q * 2 ^ e)"

text \<open>
  The double of an integer: the rounded value, an infinity from \<open>2^1024\<close> on (the largest
  double is \<open>2^1024 - 2^971\<close>).
\<close>

definition to_number :: "int \<Rightarrow> number" where
  "to_number i =
     (let m = round_double \<bar>i\<bar>
      in if 2 ^ 1024 \<le> m then (if i < 0 then NegInfinity else Infinity)
         else Num (if i < 0 then - m else m))"

text \<open>\<^verbatim>\<open>Number.isFinite\<close>, and the product \<^verbatim>\<open>a * b\<close>: the double of the exact product.\<close>

definition isFinite :: "number \<Rightarrow> bool" where
  "isFinite v = (case v of Num i \<Rightarrow> True | _ \<Rightarrow> False)"

definition sign_of :: "number \<Rightarrow> int" where
  "sign_of v = (case v of NaN \<Rightarrow> 0 | Num i \<Rightarrow> sgn i | Infinity \<Rightarrow> 1 | NegInfinity \<Rightarrow> - 1)"

definition times_number :: "number \<Rightarrow> number \<Rightarrow> number" where
  "times_number a b =
     (case (a, b) of
        (NaN, _) \<Rightarrow> NaN
      | (_, NaN) \<Rightarrow> NaN
      | (Num x, Num y) \<Rightarrow> to_number (x * y)
      | _ \<Rightarrow> (if sign_of a * sign_of b = 0 then NaN
              else if 0 < sign_of a * sign_of b then Infinity else NegInfinity))"

section \<open>The world a run acts on\<close>

text \<open>
  What the engine does to its surroundings, in the order it does it: a request sent (its URL
  and its \<^verbatim>\<open>cursor\<close> variable), a \<^verbatim>\<open>delay\<close>, a notification, a progress callback.
\<close>

datatype effect =
    Fetch string "string option"
  | Delay number
  | Notify string string
  | Progress nat nat

text \<open>
  The state: the store; the faults the store will raise, one entry for each coming call of a
  db.ts function (\<^term>\<open>Some e\<close>: the call throws \<open>e\<close> and changes nothing; past the end of
  the list no call fails); the clock, as the sequence of its readings and the number of
  readings taken; the byte length of a product's JSON; the two flags of the engine object;
  the effects so far.
\<close>

record world =
  store :: db
  faults :: "exn option list"
  clock :: "nat \<Rightarrow> timestamp"
  reads :: nat
  json_bytes :: "Product \<Rightarrow> nat"
  paused :: bool
  cancelled :: bool
  trace :: "effect list"

text \<open>An action returns a value or throws, and leaves a new state.\<close>

type_synonym 'a io = "world \<Rightarrow> (exn + 'a) \<times> world"

definition ret :: "'a \<Rightarrow> 'a io" where
  "ret x w = (Inr x, w)"

definition throw :: "exn \<Rightarrow> 'a io" where
  "throw e w = (Inl e, w)"

definition bind :: "'a io \<Rightarrow> ('a \<Rightarrow> 'b io) \<Rightarrow> 'b io" where
  "bind m f w = (case m w of (Inl e, w') \<Rightarrow> (Inl e, w') | (Inr x, w') \<Rightarrow> f x w')"

definition seq :: "unit io \<Rightarrow> 'b io \<Rightarrow> 'b io" where
  "seq m k = bind m (\<lambda>_. k)"

text \<open>One call of a db.ts function: it takes the next fault, or runs on the store.\<close>

definition db_call :: "(db \<Rightarrow> 'a \<times> db) \<Rightarrow> 'a io" where
  "db_call f w =
     (case faults w of
        Some e # fs \<Rightarrow> (Inl e, w\<lparr>faults := fs\<rparr>)
      | _ \<Rightarrow> (let (x, d) = f (store w) in (Inr x, w\<lparr>store := d, faults := tl (faults w)\<rparr>)))"

definition db_read :: "(db \<Rightarrow> 'a) \<Rightarrow> 'a io" where
  "db_read g = db_call (\<lambda>d. (g d, d))"

definition db_write :: "(db \<Rightarrow> db) \<Rightarrow> unit io" where
  "db_write f = db_call (\<lambda>d. ((), f d))"

definition getStorefront :: "string \<Rightarrow> Storefront option io" where
  "getStorefront k = db_read (db_getStorefront k)"

definition putStorefront :: "Storefront \<Rightarrow> unit io" where
  "putStorefront sf = db_write (db_putStorefront sf)"

definition putProducts :: "Product list \<Rightarrow> unit io" where
  "putProducts ps = db_write (db_putProducts ps)"

definition getProductCount :: "string \<Rightarrow> nat io" where
  "getProductCount storefrontId = db_read (db_getProductCount storefrontId)"

definition markProductsRemoved :: "string \<Rightarrow> string set \<Rightarrow> timestamp \<Rightarrow> unit io" where
  "markProductsRemoved storefrontId activeIds ts =
     db_write (db_markProductsRemoved storefrontId activeIds ts)"

definition getBackupCursor :: "string \<Rightarrow> BackupCursor option io" where
  "getBackupCursor k = db_read (db_getBackupCursor k)"

definition putBackupCursor :: "BackupCursor \<Rightarrow> unit io" where
  "putBackupCursor c = db_write (db_putBackupCursor c)"

definition deleteBackupCursor :: "string \<Rightarrow> unit io" where
  "deleteBackupCursor k = db_write (db_deleteBackupCursor k)"

definition addLog :: "LogEntry \<Rightarrow> unit io" where
  "addLog entry = db_write (db_addLog entry)"

definition estimateStorefrontSize :: "string \<Rightarrow> nat io" where
  "estimateStorefrontSize storefrontId =
     bind (db_read (db_getProductsByStorefront storefrontId))
       (\<lambda>ps w. (Inr (json_array_size (json_bytes w) ps), w))"

text \<open>\<^verbatim>\<open>new Date().toISOString()\<close>: the next reading of the clock.\<close>

definition now :: "timestamp io" where
  "now w = (Inr (clock w (reads w)), w\<lparr>reads := Suc (reads w)\<rparr>)"

definition emit :: "effect \<Rightarrow> unit io" where
  "emit x w = (Inr (), w\<lparr>trace := trace w @ [x]\<rparr>)"

definition notify :: "string \<Rightarrow> string \<Rightarrow> unit io" where
  "notify ttl msg = emit (Notify ttl msg)"

definition delay :: "number \<Rightarrow> unit io" where
  "delay ms = emit (Delay ms)"

definition onProgress :: "nat \<Rightarrow> nat \<Rightarrow> unit io" where
  "onProgress fetched estimated = emit (Progress fetched estimated)"

text \<open>The entry that the engine hands to \<^verbatim>\<open>addLog\<close>; the id is the store's to give.\<close>

definition log_entry ::
  "string \<Rightarrow> timestamp \<Rightarrow> LogLevel \<Rightarrow> string \<Rightarrow> (string \<times> jsval) list option \<Rightarrow> LogEntry" where
  "log_entry sid ts lv msg dt =
     \<lparr>l_id = 0, l_storefront_id = sid, l_timestamp = ts, level = lv, l_message = msg,
      detail = dt\<rparr>"

section \<open>Numbers in strings\<close>

text \<open>A natural number in a template string: its decimal digits.\<close>

fun show_nat :: "nat \<Rightarrow> string" where
  "show_nat n =
     (if n < 10 then [char_of (48 + n)]
      else show_nat (n div 10) @ [char_of (48 + n mod 10)])"

declare show_nat.simps [simp del]

text \<open>
  A number in a template string (\<^verbatim>\<open>Number::toString\<close>). The digits are those of the
  decimal number with the fewest significant digits that rounds to the double, the nearest to
  it if there are two, then the even one: \<^term>\<open>nearest x e\<close> looks among the multiples of
  \<open>10^e\<close>. Below \<open>10^21\<close> all the digits are written, from there on the exponent form.
\<close>

function show_digits :: "int \<Rightarrow> string" where
  "show_digits n =
     (if n < 10 then [char_of (48 + n)]
      else show_digits (n div 10) @ [char_of (48 + n mod 10)])"
  by pat_completeness auto
termination
  by (relation "measure nat") auto

declare show_digits.simps [simp del]

definition nearest :: "int \<Rightarrow> nat \<Rightarrow> int option" where
  "nearest x e =
     (let lo = x div 10 ^ e * 10 ^ e; hi = lo + 10 ^ e;
          l = (round_double lo = x); h = (round_double hi = x)
      in if l \<and> h then
           Some (if x - lo < hi - x \<or> (x - lo = hi - x \<and> even (lo div 10 ^ e)) then lo else hi)
         else if l then Some lo else if h then Some hi else None)"

fun shortest_from :: "int \<Rightarrow> nat \<Rightarrow> int" where
  "shortest_from x 0 = x"
| "shortest_from x (Suc e) =
     (case nearest x (Suc e) of Some m \<Rightarrow> m | None \<Rightarrow> shortest_from x e)"

definition shortest_decimal :: "int \<Rightarrow> int" where
  "shortest_decimal x = shortest_from x (length (show_digits x) - 1)"

definition strip_zeros :: "string \<Rightarrow> string" where
  "strip_zeros ds = rev (dropWhile (\<lambda>c. c = CHR ''0'') (rev ds))"

definition show_double :: "int \<Rightarrow> string" where
  "show_double x =
     (let ds = show_digits (shortest_decimal x); n = length ds; s = strip_zeros ds
      in if n \<le> 21 then ds
         else if length s = 1 then s @ ''e+'' @ show_nat (n - 1)
         else hd s # ''.'' @ tl s @ ''e+'' @ show_nat (n - 1))"

definition show_number :: "number \<Rightarrow> string" where
  "show_number v =
     (case v of
        NaN \<Rightarrow> ''NaN''
      | Infinity \<Rightarrow> ''Infinity''
      | NegInfinity \<Rightarrow> ''-Infinity''
      | Num i \<Rightarrow> (if i < 0 then CHR ''-'' # show_double (- i) else show_double i))"

text \<open>
  \<^verbatim>\<open>parseInt(s, 10)\<close>: leading white space is skipped, a sign is read, then the longest
  run of decimal digits; with no digit the result is \<^verbatim>\<open>NaN\<close>, otherwise the double of
  the integer read. The string is the value of a header, a string of bytes: of the
  characters below 256, JavaScript's white space is the six of ASCII and the no-break space.
  (Past twenty digits the standard lets an implementation read the further digits as zeros;
  the model reads them all.)
\<close>

definition is_space :: "char \<Rightarrow> bool" where
  "is_space c =
     (c \<in> {CHR '' '', CHR 0x09, CHR 0x0A, CHR 0x0B, CHR 0x0C, CHR 0x0D, CHR 0xA0})"

definition is_digit :: "char \<Rightarrow> bool" where
  "is_digit c = (48 \<le> (of_char c :: nat) \<and> (of_char c :: nat) \<le> 57)"

definition digits_value :: "string \<Rightarrow> int" where
  "digits_value ds = foldl (\<lambda>acc c. 10 * acc + (of_char c - 48)) 0 ds"

definition parseInt :: "string \<Rightarrow> number" where
  "parseInt s =
     (let t = dropWhile is_space s;
          neg = (t \<noteq> [] \<and> hd t = CHR ''-'');
          u = (if t \<noteq> [] \<and> (hd t = CHR ''-'' \<or> hd t = CHR ''+'') then tl t else t);
          ds = takeWhile is_digit u
      in if ds = [] then NaN
         else to_number (if neg then - digits_value ds else digits_value ds))"

section \<open>The page fetcher (backup.ts, fetchPage and isThrottled)\<close>

text \<open>
  What the fetcher returns: the status, the body, and of the headers the one the engine
  reads, \<^verbatim>\<open>Retry-After\<close>.
\<close>

record response =
  status :: nat
  body :: GqlResponse
  retry_after :: "string option"

text \<open>
  What one \<^verbatim>\<open>fetch\<close> meets: it rejects, or it answers with a status, a body that parses
  as JSON or does not (\<^const>\<open>None\<close>), and maybe a \<^verbatim>\<open>Retry-After\<close> header. While the
  request is in flight the caller may call \<^verbatim>\<open>pause()\<close> or \<^verbatim>\<open>cancel()\<close> on the engine.
\<close>

datatype fetch_outcome = NetFail exn | Resp nat "GqlResponse option" "string option"

datatype signal = PauseReq | CancelReq

record net_event =
  signals :: "signal list"
  outcome :: fetch_outcome

definition graphql_url :: "string \<Rightarrow> string" where
  "graphql_url storefrontId = ''https://'' @ storefrontId @ ''/api/2026-01/graphql.json''"

text \<open>The value \<^verbatim>\<open>fetchPage\<close> returns: a body that does not parse is the empty object.\<close>

definition answer :: "nat \<Rightarrow> GqlResponse option \<Rightarrow> string option \<Rightarrow> response" where
  "answer st json hdr =
     \<lparr>status = st,
      body = (case json of None \<Rightarrow> \<lparr>data = None, errors = None\<rparr> | Some b \<Rightarrow> b),
      retry_after = hdr\<rparr>"

definition fetchPage :: "string \<Rightarrow> string option \<Rightarrow> net_event \<Rightarrow> response io" where
  "fetchPage storefrontId cur ev w =
     (let w1 = w\<lparr>trace := trace w @ [Fetch (graphql_url storefrontId) cur],
                  paused := paused w \<or> PauseReq \<in> set (signals ev),
                  cancelled := cancelled w \<or> CancelReq \<in> set (signals ev)\<rparr>
      in case outcome ev of
           NetFail e \<Rightarrow> (Inl e, w1)
         | Resp st json hdr \<Rightarrow> (Inr (answer st json hdr), w1))"

definition isThrottled :: "GqlResponse \<Rightarrow> bool" where
  "isThrottled bd =
     (case errors bd of
        None \<Rightarrow> False
      | Some es \<Rightarrow> list_ex (\<lambda>e. extensions e = Some (Some ''THROTTLED'')) es)"

definition throttled :: "response \<Rightarrow> bool" where
  "throttled r = (status r = 429 \<or> isThrottled (body r))"

text \<open>The wait after a throttled answer, from its \<^verbatim>\<open>Retry-After\<close> header.\<close>

definition waitMs :: "response \<Rightarrow> number" where
  "waitMs r =
     (let retryAfter = parseInt (case retry_after r of None \<Rightarrow> [] | Some h \<Rightarrow> h)
      in if isFinite retryAfter then times_number retryAfter (Num 1000) else Num 2000)"

section \<open>The engine (backup.ts, BackupEngine.run)\<close>

definition markPartial :: "string \<Rightarrow> unit io" where
  "markPartial sid =
     bind (getStorefront sid)
       (\<lambda>storefront. case storefront of
            None \<Rightarrow> ret ()
          | Some sf \<Rightarrow> putStorefront (sf\<lparr>backup_status := Partial\<rparr>))"

text \<open>Step 1: get or create the storefront record, and store it as in progress.\<close>

definition load_storefront :: "string \<Rightarrow> Storefront io" where
  "load_storefront sid =
     bind (getStorefront sid) (\<lambda>found.
     bind now (\<lambda>t.
       let storefront =
             (case found of
                None \<Rightarrow> \<lparr>sf_id = sid, sf_domain = sid, last_backup_at = None,
                         backup_status = InProgress, product_count = 0, size_bytes = 0,
                         sf_created_at = t\<rparr>
              | Some sf \<Rightarrow> sf\<lparr>backup_status := InProgress\<rparr>)
       in seq (putStorefront storefront) (ret storefront)))"

text \<open>Step 2: get or create the backup cursor; a cursor with a token is logged as resumed.\<close>

definition load_cursor :: "string \<Rightarrow> BackupCursor io" where
  "load_cursor sid =
     bind (getBackupCursor sid) (\<lambda>found.
     seq (case found of
            None \<Rightarrow> ret ()
          | Some c \<Rightarrow>
              (case cursor c of
                 None \<Rightarrow> ret ()
               | Some tok \<Rightarrow>
                   bind now (\<lambda>t.
                     addLog (log_entry sid t LInfo ''Resuming backup from cursor''
                       (Some [(''cursor'', JStr tok),
                              (''products_fetched'', JNum (products_fetched c))])))))
         (case found of
            Some c \<Rightarrow> ret c
          | None \<Rightarrow>
              bind now (\<lambda>t.
                let c = \<lparr>c_storefront_id = sid, cursor = None, started_at = t,
                         products_fetched = 0, total_products = None\<rparr>
                in seq (putBackupCursor c) (ret c))))"

text \<open>
  The ways the body of \<^verbatim>\<open>run\<close> ends without a throw. The source returns nothing; the
  model returns the way taken and the local \<^verbatim>\<open>seenIds\<close>, for the theorems to name.
\<close>

datatype stop =
  StopRateLimited | StopHttp | StopMissingData | StopCancelled | StopPaused | StopComplete

text \<open>Step 3c: the warning and the wait after a throttled answer.\<close>

definition rate_limit_wait :: "string \<Rightarrow> response \<Rightarrow> unit io" where
  "rate_limit_wait sid r =
     bind now (\<lambda>t.
     seq (addLog (log_entry sid t LWarn
            (''Rate limited, retrying after '' @ show_number (waitMs r) @ ''ms'') None))
         (delay (waitMs r)))"

definition rate_limit_stop :: "string \<Rightarrow> unit io" where
  "rate_limit_stop sid =
     bind now (\<lambda>t.
     seq (addLog (log_entry sid t LError ''Rate limited on retry, stopping backup'' None))
         (markPartial sid))"

text \<open>
  Steps 3b and 3c: fetch the page at the cursor; a throttled answer is waited out and the
  same request sent once more. The events not used are returned; \<^const>\<open>None\<close> says that
  the list of events ended before the engine stopped asking.
\<close>

datatype fetched = GaveUp | Got response

definition fetch_with_retry ::
  "string \<Rightarrow> BackupCursor \<Rightarrow> net_event list \<Rightarrow> world
     \<Rightarrow> (((exn + fetched) \<times> world) \<times> net_event list) option" where
  "fetch_with_retry sid c evs w =
     (case evs of
        [] \<Rightarrow> None
      | ev # evs1 \<Rightarrow>
          (case fetchPage sid (cursor c) ev w of
             (Inl e, w1) \<Rightarrow> Some ((Inl e, w1), evs1)
           | (Inr resp, w1) \<Rightarrow>
               if throttled resp then
                 (case rate_limit_wait sid resp w1 of
                    (Inl e, w2) \<Rightarrow> Some ((Inl e, w2), evs1)
                  | (Inr u, w2) \<Rightarrow>
                      (case evs1 of
                         [] \<Rightarrow> None
                       | ev2 # evs2 \<Rightarrow>
                           Some (bind (fetchPage sid (cursor c) ev2)
                                   (\<lambda>retry. if throttled retry
                                             then seq (rate_limit_stop sid) (ret GaveUp)
                                             else ret (Got retry)) w2,
                                 evs2)))
               else Some ((Inr (Got resp), w1), evs1)))"

text \<open>\<^verbatim>\<open>nodes.map((node) => transformProduct(sid, node))\<close>, each call reading the clock.\<close>

definition transform_io :: "string \<Rightarrow> GqlProductNode \<Rightarrow> Product io" where
  "transform_io sid node w =
     (case transformProduct sid (clock w (reads w)) node of
        Inl e \<Rightarrow> (Inl e, w)
      | Inr p \<Rightarrow> (Inr p, w\<lparr>reads := Suc (reads w)\<rparr>))"

fun transformAll :: "string \<Rightarrow> GqlProductNode list \<Rightarrow> Product list io" where
  "transformAll sid [] = ret []"
| "transformAll sid (n # ns) =
     bind (transform_io sid n) (\<lambda>p. bind (transformAll sid ns) (\<lambda>ps. ret (p # ps)))"

text \<open>
  Steps 3d to 3l on the answer of the fetcher: \<open>Return\<close> is a \<^verbatim>\<open>return\<close> out of
  \<^verbatim>\<open>run\<close>, \<open>Continue\<close> goes round the loop with the new cursor and seen ids, \<open>Break\<close>
  leaves the loop after the last page.
\<close>

datatype page_result =
  Return stop | Continue BackupCursor "string set" | Break BackupCursor "string set"

definition process_page ::
  "string \<Rightarrow> response \<Rightarrow> BackupCursor \<Rightarrow> string set \<Rightarrow> page_result io" where
  "process_page sid resp c seenIds =
     (if status resp \<noteq> 200 then
        bind now (\<lambda>t.
        seq (addLog (log_entry sid t LError
               (''HTTP '' @ show_nat (status resp) @ '' from GraphQL API'')
               (Some [(''body'', JBody (body resp))])))
       (seq (markPartial sid)
       (seq (notify ''Backup failed''
               (''Backup stopped for '' @ sid @ '': HTTP '' @ show_nat (status resp)))
            (ret (Return StopHttp)))))
      else
        (case data (body resp) of
           None \<Rightarrow>
             bind now (\<lambda>t.
             seq (addLog (log_entry sid t LError ''GraphQL response missing data''
                    (Some [(''errors'',
                            (case errors (body resp) of None \<Rightarrow> JNull | Some es \<Rightarrow> JErrors es))])))
            (seq (markPartial sid)
                 (ret (Return StopMissingData))))
         | Some productsData \<Rightarrow>
             bind (transformAll sid (page_nodes productsData)) (\<lambda>ps.
             seq (putProducts ps)
               (let seenIds' = seenIds \<union> set (map p_id ps);
                    c' = c\<lparr>products_fetched :=
                              products_fetched c + length (page_nodes productsData),
                            cursor := endCursor (pageInfo productsData)\<rparr>
                in seq (putBackupCursor c')
                  (seq (onProgress (products_fetched c')
                          (case total_products c' of None \<Rightarrow> 0 | Some n \<Rightarrow> n))
                       (if hasNextPage (pageInfo productsData)
                        then seq (delay (Num 500)) (ret (Continue c' seenIds'))
                        else ret (Break c' seenIds')))))))"

text \<open>
  Step 3, the loop. It ends with a \<^verbatim>\<open>return\<close> out of \<^verbatim>\<open>run\<close> or with a
  \<^verbatim>\<open>break\<close>; a throw ends it as \<^const>\<open>Inl\<close>.
\<close>

datatype loop_exit = LReturn stop "string set" | LBreak BackupCursor "string set"

function loop ::
  "string \<Rightarrow> net_event list \<Rightarrow> BackupCursor \<Rightarrow> string set \<Rightarrow> world
     \<Rightarrow> ((exn + loop_exit) \<times> world) option" where
  "loop sid evs c seenIds w =
     (if paused w \<or> cancelled w then Some (Inr (LBreak c seenIds), w)
      else
        (case fetch_with_retry sid c evs w of
           None \<Rightarrow> None
         | Some ((Inl e, w1), evs') \<Rightarrow> Some (Inl e, w1)
         | Some ((Inr GaveUp, w1), evs') \<Rightarrow> Some (Inr (LReturn StopRateLimited seenIds), w1)
         | Some ((Inr (Got resp), w1), evs') \<Rightarrow>
             (case process_page sid resp c seenIds w1 of
                (Inl e, w2) \<Rightarrow> Some (Inl e, w2)
              | (Inr (Return s), w2) \<Rightarrow> Some (Inr (LReturn s seenIds), w2)
              | (Inr (Break c' seenIds'), w2) \<Rightarrow> Some (Inr (LBreak c' seenIds'), w2)
              | (Inr (Continue c' seenIds'), w2) \<Rightarrow> loop sid evs' c' seenIds' w2)))"
  by pat_completeness auto
termination
  by (relation "measure (\<lambda>(sid, evs, c, seenIds, w). length evs)")
     (auto simp: fetch_with_retry_def split: list.splits prod.splits sum.splits if_splits)

declare loop.simps [simp del]

text \<open>Step 4, after the loop: cancelled, paused, or completed.\<close>

definition is_cancelled :: "bool io" where
  "is_cancelled w = (Inr (cancelled w), w)"

definition is_paused :: "bool io" where
  "is_paused w = (Inr (paused w), w)"

definition finish_cancelled :: "string \<Rightarrow> unit io" where
  "finish_cancelled sid =
     seq (markPartial sid)
    (seq (deleteBackupCursor sid)
    (bind now (\<lambda>t. addLog (log_entry sid t LInfo ''Backup cancelled by user'' None))))"

definition finish_paused :: "string \<Rightarrow> Storefront \<Rightarrow> BackupCursor \<Rightarrow> unit io" where
  "finish_paused sid storefront c =
     seq (putStorefront (storefront\<lparr>backup_status := Paused\<rparr>))
    (bind now (\<lambda>t.
       addLog (log_entry sid t LInfo ''Backup paused''
         (Some [(''products_fetched'', JNum (products_fetched c))]))))"

text \<open>
  The separator of the notification is, as the source file has it, the three characters
  U+00E2, U+20AC and U+201D: eight bytes in UTF-8.
\<close>

definition complete_message :: "string \<Rightarrow> nat \<Rightarrow> string" where
  "complete_message sid productCount =
     ''Backup complete: '' @ sid @ '' ''
       @ [CHR 0xC3, CHR 0xA2, CHR 0xE2, CHR 0x82, CHR 0xAC, CHR 0xE2, CHR 0x80, CHR 0x9D] @ '' ''
       @ show_nat productCount @ '' products backed up.''"

definition finish_complete :: "string \<Rightarrow> Storefront \<Rightarrow> string set \<Rightarrow> unit io" where
  "finish_complete sid storefront seenIds =
     bind now (\<lambda>completedAt.
     seq (markProductsRemoved sid seenIds completedAt)
    (bind (getProductCount sid) (\<lambda>productCount.
     bind (estimateStorefrontSize sid) (\<lambda>sizeBytes.
     seq (putStorefront (storefront\<lparr>backup_status := Complete,
                                    last_backup_at := Some completedAt,
                                    product_count := productCount,
                                    size_bytes := sizeBytes\<rparr>))
    (seq (deleteBackupCursor sid)
    (seq (addLog (log_entry sid completedAt LInfo ''Backup complete''
            (Some [(''product_count'', JNum productCount), (''size_bytes'', JNum sizeBytes)])))
         (notify ''Backup complete'' (complete_message sid productCount))))))))"

definition post_loop ::
  "string \<Rightarrow> Storefront \<Rightarrow> BackupCursor \<Rightarrow> string set \<Rightarrow> (stop \<times> string set) io" where
  "post_loop sid storefront c seenIds =
     bind is_cancelled (\<lambda>cn.
       if cn then seq (finish_cancelled sid) (ret (StopCancelled, seenIds))
       else
         bind is_paused (\<lambda>ps.
           if ps then seq (finish_paused sid storefront c) (ret (StopPaused, seenIds))
           else seq (finish_complete sid storefront seenIds) (ret (StopComplete, seenIds))))"

text \<open>The \<^verbatim>\<open>try\<close> block of \<^verbatim>\<open>run\<close>: steps 1 to 4.\<close>

definition run_body ::
  "string \<Rightarrow> net_event list \<Rightarrow> world \<Rightarrow> ((exn + stop \<times> string set) \<times> world) option" where
  "run_body sid evs w =
     (case load_storefront sid w of
        (Inl e, w1) \<Rightarrow> Some (Inl e, w1)
      | (Inr storefront, w1) \<Rightarrow>
          (case load_cursor sid w1 of
             (Inl e, w2) \<Rightarrow> Some (Inl e, w2)
           | (Inr c, w2) \<Rightarrow>
               (case loop sid evs c {} w2 of
                  None \<Rightarrow> None
                | Some (Inl e, w3) \<Rightarrow> Some (Inl e, w3)
                | Some (Inr (LReturn s seenIds), w3) \<Rightarrow> Some (Inr (s, seenIds), w3)
                | Some (Inr (LBreak c' seenIds), w3) \<Rightarrow>
                    Some (post_loop sid storefront c' seenIds w3))))"

text \<open>The \<^verbatim>\<open>catch\<close> block of \<^verbatim>\<open>run\<close>.\<close>

definition is_quota_error :: "exn \<Rightarrow> bool" where
  "is_quota_error error =
     (case error of Error nm msg \<Rightarrow> nm = ''QuotaExceededError'' | Thrown v \<Rightarrow> False)"

definition error_message :: "exn \<Rightarrow> string" where
  "error_message error = (case error of Error nm msg \<Rightarrow> msg | Thrown v \<Rightarrow> v)"

definition on_error :: "string \<Rightarrow> exn \<Rightarrow> unit io" where
  "on_error sid error =
     (if is_quota_error error then
        seq (markPartial sid)
       (seq (notify ''Backup stopped''
               (''Backup stopped: Storage quota exceeded for '' @ sid
                  @ ''. Open the extension to review.''))
       (bind now (\<lambda>t. addLog (log_entry sid t LError ''Storage quota exceeded'' None))))
      else
        seq (markPartial sid)
       (bind now (\<lambda>t.
          addLog (log_entry sid t LError
            (''Unexpected error during backup: '' @ error_message error) None))))"

text \<open>
  \<^verbatim>\<open>run()\<close>. \<open>Ended\<close>: the \<^verbatim>\<open>try\<close> block came to its end or to a \<^verbatim>\<open>return\<close>.
  \<open>Caught\<close>: it threw and the \<^verbatim>\<open>catch\<close> block ran to its end. \<^const>\<open>Inl\<close>: the
  \<^verbatim>\<open>catch\<close> block itself threw, and the promise of \<^verbatim>\<open>run\<close> rejects.
\<close>

datatype run_exit = Ended stop "string set" | Caught exn

definition run :: "string \<Rightarrow> net_event list \<Rightarrow> world \<Rightarrow> ((exn + run_exit) \<times> world) option" where
  "run sid evs w =
     (case run_body sid evs w of
        None \<Rightarrow> None
      | Some (Inr (s, seenIds), w1) \<Rightarrow> Some (Inr (Ended s seenIds), w1)
      | Some (Inl error, w1) \<Rightarrow>
          Some (case on_error sid error w1 of
                  (Inl e, w2) \<Rightarrow> (Inl e, w2)
                | (Inr u, w2) \<Rightarrow> (Inr (Caught error), w2)))"

section \<open>The engine objects and the registry (backup.ts, activeBackups)\<close>

text \<open>
  The process: the engine objects made so far, each with its storefront id and its two
  flags (the position in the list is the object's identity); the map \<^verbatim>\<open>activeBackups\<close>
  from storefront id to engine; and the calls of \<^verbatim>\<open>run()\<close> that have started and not
  yet settled, each with its engine. A call of \<^verbatim>\<open>run()\<close> is counted here, not run.
\<close>

record BackupEngine =
  storefrontId :: string
  e_paused :: bool
  e_cancelled :: bool

text \<open>
  A call of \<^verbatim>\<open>run()\<close> in progress: its engine, and whether the caller chained the
  \<^verbatim>\<open>finally\<close> that deletes the registry entry (\<^verbatim>\<open>resume()\<close> does not).
\<close>

record run_call =
  engine_ref :: nat
  cleanup :: bool

record process =
  engines :: "BackupEngine list"
  activeBackups :: "(string \<times> nat) list"
  running :: "run_call list"
  persisted :: db


definition engine_resume :: "nat \<Rightarrow> process \<Rightarrow> process" where
  "engine_resume i s =
     s\<lparr>engines := (engines s)[i := (engines s ! i)\<lparr>e_paused := False\<rparr>],
       running := running s @ [\<lparr>engine_ref = i, cleanup = False\<rparr>]\<rparr>"


text \<open>\<^verbatim>\<open>Map.set\<close> and \<^verbatim>\<open>Map.delete\<close> on the registry.\<close>

definition map_set :: "string \<Rightarrow> nat \<Rightarrow> (string \<times> nat) list \<Rightarrow> (string \<times> nat) list" where
  "map_set k v m = tbl_put fst (k, v) m"

definition startBackup :: "string \<Rightarrow> process \<Rightarrow> process" where
  "startBackup sid s =
     (let i = length (engines s)
      in s\<lparr>engines := engines s @ [\<lparr>storefrontId = sid, e_paused = False, e_cancelled = False\<rparr>],
           activeBackups := map_set sid i (activeBackups s),
           running := running s @ [\<lparr>engine_ref = i, cleanup = True\<rparr>]\<rparr>)"


definition resumeBackup :: "string \<Rightarrow> process \<Rightarrow> process" where
  "resumeBackup sid s =
     (case map_of (activeBackups s) sid of
        Some i \<Rightarrow> engine_resume i s
      | None \<Rightarrow>
          (let i = length (engines s)
           in s\<lparr>engines :=
                  engines s @ [\<lparr>storefrontId = sid, e_paused = False, e_cancelled = False\<rparr>],
                activeBackups := map_set sid i (activeBackups s),
                running := running s @ [\<lparr>engine_ref = i, cleanup = True\<rparr>]\<rparr>))"


text \<open>
  The \<open>j\<close>-th call of \<^verbatim>\<open>run()\<close> in progress settles, leaving the store as \<open>d\<close>; with
  a \<^verbatim>\<open>finally\<close> chained, the registry entry of its storefront is deleted.
\<close>

definition settle :: "nat \<Rightarrow> db \<Rightarrow> process \<Rightarrow> process" where
  "settle j d s =
     (if j < length (running s) then
        (let r = running s ! j;
             sid = storefrontId (engines s ! engine_ref r)
         in s\<lparr>running := take j (running s) @ drop (Suc j) (running s),
              activeBackups :=
                (if cleanup r then tbl_delete fst sid (activeBackups s) else activeBackups s),
              persisted := d\<rparr>)
      else s)"

text \<open>The run loops that are active for a storefront.\<close>

definition active_runs :: "string \<Rightarrow> process \<Rightarrow> run_call list" where
  "active_runs sid s =
     filter (\<lambda>r. storefrontId (engines s ! engine_ref r) = sid) (running s)"

section \<open>Sample inputs\<close>

text \<open>A well-typed page record with the given id, without images or variants.\<close>

definition sample_node :: "string \<Rightarrow> GqlProductNode" where
  "sample_node i =
     \<lparr>g_id = i, g_title = ''Title'', g_handle = ''handle'', descriptionHtml = [],
      g_vendor = ''Vendor'', productType = ''Type'', g_tags = [],
      createdAt = ''2026-01-01T00:00:00.000Z'', updatedAt = ''2026-01-02T00:00:00.000Z'',
      g_images = Some \<lparr>nodes = Some []\<rparr>, g_variants = Some \<lparr>nodes = Some []\<rparr>\<rparr>"

text \<open>A variant with a price, no compare-at price, and one selected option.\<close>

definition sample_variant :: GqlVariantNode where
  "sample_variant =
     \<lparr>gv_id = ''gid://shopify/ProductVariant/7'', gv_title = ''Small'', gv_sku = ''SKU-7'',
      gv_price = Some \<lparr>amount = ''29.99'', currencyCode = ''USD''\<rparr>,
      compareAtPrice = None, gv_weight = None, weightUnit = None,
      selectedOptions = Some [\<lparr>opt_name = ''Size'', opt_value = ''S''\<rparr>]\<rparr>"

definition sample_image :: GqlImageNode where
  "sample_image =
     \<lparr>gi_url = ''https://cdn.shopify.com/a.png'', altText = None, gi_width = 640,
      gi_height = 480\<rparr>"

text \<open>A 200 answer with a page of records with the given ids.\<close>

definition sample_page :: "string list \<Rightarrow> bool \<Rightarrow> string option \<Rightarrow> net_event" where
  "sample_page ids has_next end_cursor =
     \<lparr>signals = [],
      outcome = Resp 200
        (Some \<lparr>data = Some \<lparr>pageInfo = \<lparr>hasNextPage = has_next, endCursor = end_cursor\<rparr>,
                            page_nodes = map sample_node ids\<rparr>,
               errors = None\<rparr>)
        None\<rparr>"

text \<open>An answer with the status and the \<^verbatim>\<open>Retry-After\<close> header given, and no JSON body.\<close>

definition sample_status :: "nat \<Rightarrow> string option \<Rightarrow> net_event" where
  "sample_status st hdr = \<lparr>signals = [], outcome = Resp st None hdr\<rparr>"

text \<open>
  An answer of status 200 whose body holds an error with the code THROTTLED, with the
  \<^verbatim>\<open>Retry-After\<close> header given.
\<close>

definition sample_throttled :: "string option \<Rightarrow> net_event" where
  "sample_throttled hdr =
     \<lparr>signals = [],
      outcome = Resp 200
        (Some \<lparr>data = None,
               errors = Some [\<lparr>message = ''Throttled'',
                               extensions = Some (Some ''THROTTLED'')\<rparr>]\<rparr>)
        hdr\<rparr>"

definition empty_db :: db where
  "empty_db = \<lparr>storefronts = [], products = [], backup_cursors = [], logs = [], next_log_id = 1\<rparr>"

text \<open>
  A world with the store given, no fault to come, a clock whose \<open>n\<close>-th reading is the
  string of \<open>n\<close>, products of 100 bytes each, and a new engine.
\<close>

definition sample_world :: "db \<Rightarrow> world" where
  "sample_world d =
     \<lparr>store = d, faults = [], clock = show_nat, reads = 0, json_bytes = (\<lambda>p. 100),
      paused = False, cancelled = False, trace = []\<rparr>"

definition empty_process :: process where
  "empty_process = \<lparr>engines = [], activeBackups = [], running = [], persisted = empty_db\<rparr>"

text \<open>A product of the storefront \<open>shop\<close> that an earlier run has marked as removed.\<close>

definition removed_product :: Product where
  "removed_product =
     \<lparr>p_id = ''shop::gid://shopify/Product/1'', p_storefront_id = ''shop'', shopify_id = ''1'',
      title = ''Old title'', handle = ''handle'', description_html = [], vendor = ''Vendor'',
      product_type = ''Type'', tags = [], images = [], variants = [],
      created_at = ''2026-01-01T00:00:00.000Z'', updated_at = ''2026-01-02T00:00:00.000Z'',
      sniffer_updated_at = ''2026-02-01T00:00:00.000Z'',
      removed_at = Some ''2026-03-01T00:00:00.000Z''\<rparr>"

text \<open>A storefront record and a backup cursor as a run leaves them before its first page.\<close>

definition sample_storefront :: Storefront where
  "sample_storefront =
     \<lparr>sf_id = ''shop'', sf_domain = ''shop'', last_backup_at = None,
      backup_status = InProgress, product_count = 0, size_bytes = 0,
      sf_created_at = ''2026-01-01T00:00:00.000Z''\<rparr>"

definition sample_cursor :: BackupCursor where
  "sample_cursor =
     \<lparr>c_storefront_id = ''shop'', cursor = None, started_at = ''2026-01-01T00:00:00.000Z'',
      products_fetched = 0, total_products = None\<rparr>"

definition quota_error :: exn where
  "quota_error = Error ''QuotaExceededError'' ''The quota has been exceeded.''"

text \<open>A product of the storefront \<open>shop\<close>, stored by an earlier run and not removed.\<close>

definition active_product :: "string \<Rightarrow> Product" where
  "active_product i =
     \<lparr>p_id = ''shop::'' @ i, p_storefront_id = ''shop'', shopify_id = i,
      title = ''Old title'', handle = ''handle'', description_html = [], vendor = ''Vendor'',
      product_type = ''Type'', tags = [], images = [], variants = [],
      created_at = ''2026-01-01T00:00:00.000Z'', updated_at = ''2026-01-02T00:00:00.000Z'',
      sniffer_updated_at = ''2026-02-01T00:00:00.000Z'', removed_at = None\<rparr>"

section \<open>What the statements observe\<close>

text \<open>The status stored for a storefront, and whether a backup cursor is stored for it.\<close>

definition status_of :: "string \<Rightarrow> db \<Rightarrow> BackupStatus option" where
  "status_of sid d = map_option backup_status (db_getStorefront sid d)"

definition has_cursor :: "string \<Rightarrow> db \<Rightarrow> bool" where
  "has_cursor sid d = (db_getBackupCursor sid d \<noteq> None)"

text \<open>
  Whether a run that starts on the store resumes an earlier traversal: the test of step 2,
  \<^verbatim>\<open>cursor && cursor.cursor !== null\<close>.
\<close>

definition resuming :: "string \<Rightarrow> db \<Rightarrow> bool" where
  "resuming sid d =
     (case db_getBackupCursor sid d of None \<Rightarrow> False | Some c \<Rightarrow> cursor c \<noteq> None)"

text \<open>The status that each way out of the \<^verbatim>\<open>try\<close> block writes last.\<close>

fun status_after :: "stop \<Rightarrow> BackupStatus" where
  "status_after StopPaused = Paused"
| "status_after StopComplete = Complete"
| "status_after s = Partial"

text \<open>
  An event after which the loop goes round again: a 200 answer, not throttled, with a page
  that has a next page.
\<close>

definition continuing :: "net_event \<Rightarrow> bool" where
  "continuing ev =
     (case outcome ev of
        NetFail e \<Rightarrow> False
      | Resp st json hdr \<Rightarrow>
          \<not> throttled (answer st json hdr) \<and> st = 200
          \<and> (case data (body (answer st json hdr)) of
                None \<Rightarrow> False
              | Some pd \<Rightarrow> hasNextPage (pageInfo pd)))"

section \<open>Predicates of the proofs\<close>

text \<open>A predicate of the store that an action keeps.\<close>

definition pres :: "(db \<Rightarrow> bool) \<Rightarrow> 'a io \<Rightarrow> bool" where
  "pres P m \<longleftrightarrow> (\<forall>w. P (store w) \<longrightarrow> P (store (snd (m w))))"

text \<open>The storefront of \<open>sid\<close>, if the store has one, is marked partial.\<close>

definition partial_if_stored :: "string \<Rightarrow> db \<Rightarrow> bool" where
  "partial_if_stored sid d =
     (case db_getStorefront sid d of None \<Rightarrow> True | Some sf \<Rightarrow> backup_status sf = Partial)"

text \<open>
  A store predicate that the writes of the fetcher (a log entry, a storefront) do not break,
  and one that no write of the loop breaks.
\<close>

definition kept0 :: "(db \<Rightarrow> bool) \<Rightarrow> bool" where
  "kept0 P \<longleftrightarrow>
     (\<forall>e d. P d \<longrightarrow> P (db_addLog e d)) \<and> (\<forall>sf d. P d \<longrightarrow> P (db_putStorefront sf d))"

definition kept :: "(db \<Rightarrow> bool) \<Rightarrow> bool" where
  "kept P \<longleftrightarrow>
     kept0 P \<and> (\<forall>c d. P d \<longrightarrow> P (db_putBackupCursor c d))
     \<and> (\<forall>ps d. P d \<longrightarrow> P (db_putProducts ps d))"

text \<open>
  The products during a run that started from the table \<open>tbl0\<close> and has seen the ids
  \<open>ids\<close>: an id not seen is as it was, an id seen is stored, of the storefront, not removed.
\<close>

definition seen_inv :: "Product list \<Rightarrow> string \<Rightarrow> string set \<Rightarrow> Product list \<Rightarrow> bool" where
  "seen_inv tbl0 sid ids tbl \<longleftrightarrow>
     (\<forall>k. k \<notin> ids \<longrightarrow> tbl_get p_id tbl k = tbl_get p_id tbl0 k)
     \<and> (\<forall>k \<in> ids. \<exists>p. tbl_get p_id tbl k = Some p \<and> removed_at p = None
                          \<and> p_storefront_id p = sid)"

fun seen_of :: "loop_exit \<Rightarrow> string set" where
  "seen_of (LReturn s ids) = ids"
| "seen_of (LBreak c ids) = ids"

section \<open>Facts about tables and actions\<close>

subsection \<open>Tables\<close>

lemma tbl_get_key: "tbl_get key tbl k = Some r \<Longrightarrow> key r = k"
  by (induction tbl) (auto simp: tbl_get_def split: if_splits)

lemma tbl_get_put:
  "tbl_get key (tbl_put key r tbl) k = (if k = key r then Some r else tbl_get key tbl k)"
  by (induction tbl) (auto simp: tbl_get_def)

lemma tbl_get_delete:
  "tbl_get key (tbl_delete key k' tbl) k = (if k = k' then None else tbl_get key tbl k)"
  by (induction tbl) (auto simp: tbl_get_def tbl_delete_def)

lemma tbl_get_map:
  "(\<And>r. key (f r) = key r) \<Longrightarrow> tbl_get key (map f tbl) k = map_option f (tbl_get key tbl k)"
  by (induction tbl) (auto simp: tbl_get_def)

lemma find_app:
  "find P (xs @ ys) = (case find P xs of None \<Rightarrow> find P ys | Some x \<Rightarrow> Some x)"
  by (induction xs) auto

lemma tbl_get_puts:
  "tbl_get key (foldl (\<lambda>tbl p. tbl_put key p tbl) tbl ps) k =
     (case find (\<lambda>p. key p = k) (rev ps) of Some p \<Rightarrow> Some p | None \<Rightarrow> tbl_get key tbl k)"
proof (induction ps arbitrary: tbl)
  case Nil
  then show ?case by simp
next
  case (Cons p ps)
  show ?case
    by (simp add: Cons.IH tbl_get_put find_app split: option.splits)
qed

subsection \<open>Running the actions\<close>

lemma bind_Inr:
  "bind m f w = (Inr y, w') \<longleftrightarrow> (\<exists>x w1. m w = (Inr x, w1) \<and> f x w1 = (Inr y, w'))"
  by (auto simp: bind_def split: prod.splits sum.splits)

lemma bind_Inl:
  "bind m f w = (Inl e, w') \<longleftrightarrow>
     m w = (Inl e, w') \<or> (\<exists>x w1. m w = (Inr x, w1) \<and> f x w1 = (Inl e, w'))"
  by (auto simp: bind_def split: prod.splits sum.splits)

lemma seq_Inr:
  "seq m k w = (Inr y, w') \<longleftrightarrow> (\<exists>w1. m w = (Inr (), w1) \<and> k w1 = (Inr y, w'))"
  by (auto simp: seq_def bind_Inr)

lemma ret_eq: "ret x w = (r, w') \<longleftrightarrow> r = Inr x \<and> w' = w"
  by (auto simp: ret_def)

lemma db_call_Inr:
  "db_call f w = (Inr x, w') \<longleftrightarrow>
     (\<forall>e fs. faults w \<noteq> Some e # fs) \<and> x = fst (f (store w))
     \<and> w' = w\<lparr>store := snd (f (store w)), faults := tl (faults w)\<rparr>"
  by (auto simp: db_call_def split: list.splits option.splits prod.splits)

lemma db_call_Inl:
  "db_call f w = (Inl e, w') \<longleftrightarrow> (\<exists>fs. faults w = Some e # fs \<and> w' = w\<lparr>faults := fs\<rparr>)"
  by (auto simp: db_call_def split: list.splits option.splits prod.splits)

lemma db_call_nofault:
  "faults w = [] \<Longrightarrow> db_call f w = (Inr (fst (f (store w))), w\<lparr>store := snd (f (store w))\<rparr>)"
  by (simp add: db_call_def split: prod.splits)

subsection \<open>Store predicates kept by an action\<close>

lemma presD: "pres P m \<Longrightarrow> m w = (r, w') \<Longrightarrow> P (store w) \<Longrightarrow> P (store w')"
  by (auto simp: pres_def dest!: spec[of _ w])

lemma pres_ret: "pres P (ret x)"
  by (simp add: pres_def ret_def)

lemma pres_throw: "pres P (throw e)"
  by (simp add: pres_def throw_def)

lemma pres_bind: "pres P m \<Longrightarrow> (\<And>x. pres P (f x)) \<Longrightarrow> pres P (bind m f)"
  unfolding pres_def bind_def
  by (auto split: prod.splits sum.splits)

lemma pres_seq: "pres P m \<Longrightarrow> pres P k \<Longrightarrow> pres P (seq m k)"
  by (simp add: seq_def pres_bind)

lemma pres_db_call: "(\<And>d. P d \<Longrightarrow> P (snd (f d))) \<Longrightarrow> pres P (db_call f)"
  by (auto simp: pres_def db_call_def split_beta split: list.splits option.splits)

lemma pres_db_read: "pres P (db_read g)"
  by (simp add: db_read_def pres_db_call)

lemma pres_db_write: "(\<And>d. P d \<Longrightarrow> P (f d)) \<Longrightarrow> pres P (db_write f)"
  by (simp add: db_write_def pres_db_call)

lemma pres_now: "pres P now"
  by (simp add: pres_def now_def)

lemma pres_emit: "pres P (emit x)"
  by (simp add: pres_def emit_def)

lemma pres_if: "(c \<Longrightarrow> pres P m) \<Longrightarrow> (\<not> c \<Longrightarrow> pres P k) \<Longrightarrow> pres P (if c then m else k)"
  by simp

lemma pres_case_option:
  "pres P m \<Longrightarrow> (\<And>x. pres P (f x)) \<Longrightarrow> pres P (case v of None \<Rightarrow> m | Some x \<Rightarrow> f x)"
  by (cases v) simp_all

lemma pres_fetchPage: "pres P (fetchPage sid cur ev)"
  by (simp add: pres_def fetchPage_def Let_def split: fetch_outcome.splits)

lemma pres_transform_io: "pres P (transform_io sid n)"
  by (simp add: pres_def transform_io_def split: sum.splits)

lemma pres_transformAll: "pres P (transformAll sid ns)"
  by (induction ns) (simp_all add: pres_ret pres_bind pres_transform_io)

lemma pres_flags: "pres P is_cancelled" "pres P is_paused"
  by (simp_all add: pres_def is_cancelled_def is_paused_def)

lemma map_throw_total:
  "list_all (\<lambda>x. \<exists>y. f x = Inr y) xs \<Longrightarrow> map_throw f xs = Inr (map (\<lambda>x. projr (f x)) xs)"
  by (induction xs) auto

lemma transformProduct_fields:
  "transformProduct sid t n = Inr p \<Longrightarrow>
     p_id p = sid @ ''::'' @ g_id n \<and> p_storefront_id p = sid \<and> removed_at p = None"
  by (auto simp: transformProduct_def Let_def split: sum.splits)

lemma transformAll_Inr:
  "transformAll sid ns w = (Inr ps, w') \<Longrightarrow>
     store w' = store w \<and> faults w' = faults w \<and> trace w' = trace w
     \<and> paused w' = paused w \<and> cancelled w' = cancelled w
     \<and> list_all2 (\<lambda>n p. p_id p = sid @ ''::'' @ g_id n \<and> p_storefront_id p = sid
                          \<and> removed_at p = None) ns ps"
proof (induction ns arbitrary: w ps)
  case Nil
  then show ?case by (simp add: ret_eq)
next
  case (Cons n ns)
  from Cons.prems obtain p w1 ps' where
    1: "transform_io sid n w = (Inr p, w1)" and 2: "transformAll sid ns w1 = (Inr ps', w')"
    and 3: "ps = p # ps'"
    by (auto simp: bind_Inr ret_eq)
  from 1 have "store w1 = store w \<and> faults w1 = faults w \<and> trace w1 = trace w
     \<and> paused w1 = paused w \<and> cancelled w1 = cancelled w
     \<and> p_id p = sid @ ''::'' @ g_id n \<and> p_storefront_id p = sid \<and> removed_at p = None"
    by (auto simp: transform_io_def split: sum.splits dest: transformProduct_fields)
  with Cons.IH[OF 2] 3 show ?case by simp
qed

lemma find_SomeD: "find P xs = Some x \<Longrightarrow> x \<in> set xs \<and> P x"
  by (induction xs) (auto split: if_splits)

lemma find_rev_all2:
  assumes "list_all2 (\<lambda>n p. key p = kof n \<and> Q p) ns ps" and "n \<in> set ns"
  shows "\<exists>p. find (\<lambda>p. key p = kof n) (rev ps) = Some p \<and> Q p"
proof -
  have all: "\<forall>p \<in> set ps. Q p"
    using assms(1) by (auto simp: list_all2_conv_all_nth in_set_conv_nth)
  from assms(2) obtain i where i: "i < length ns" "ns ! i = n"
    by (auto simp: in_set_conv_nth)
  with assms(1) have "ps ! i \<in> set ps" "key (ps ! i) = kof n"
    by (auto simp: list_all2_conv_all_nth)
  then have ex: "\<exists>p \<in> set ps. key p = kof n"
    by blast
  then obtain p where p: "find (\<lambda>p. key p = kof n) (rev ps) = Some p"
    by (cases "find (\<lambda>p. key p = kof n) (rev ps)") (auto simp: find_None_iff)
  then have "p \<in> set ps"
    using find_SomeD[of "\<lambda>p. key p = kof n" "rev ps" p] by simp
  with all p show ?thesis by auto
qed


lemmas io_defs =
  bind_def seq_def ret_def throw_def db_call_def db_read_def db_write_def now_def emit_def
  notify_def delay_def onProgress_def
  getStorefront_def putStorefront_def putProducts_def getProductCount_def
  markProductsRemoved_def getBackupCursor_def putBackupCursor_def deleteBackupCursor_def
  addLog_def estimateStorefrontSize_def









lemma bind_run: "m w = (Inr x, w') \<Longrightarrow> bind m f w = f x w'"
  by (simp add: bind_def)

lemma seq_run: "m w = (Inr u, w') \<Longrightarrow> seq m k w = k w'"
  by (simp add: seq_def bind_def)

lemma bind_fail: "m w = (Inl e, w') \<Longrightarrow> bind m f w = (Inl e, w')"
  by (simp add: bind_def)

lemma seq_fail: "m w = (Inl e, w') \<Longrightarrow> seq m k w = (Inl e, w')"
  by (simp add: seq_def bind_def)




lemma seq_Inl:
  "seq m k w = (Inl e, w') \<longleftrightarrow>
     m w = (Inl e, w') \<or> (\<exists>w1. m w = (Inr (), w1) \<and> k w1 = (Inl e, w'))"
  by (auto simp: seq_def bind_Inl)

lemma db_read_Inr:
  "db_read g w = (Inr x, w') \<longleftrightarrow>
     (\<forall>e fs. faults w \<noteq> Some e # fs) \<and> x = g (store w) \<and> w' = w\<lparr>faults := tl (faults w)\<rparr>"
  by (auto simp: db_read_def db_call_Inr)

lemma db_write_Inr:
  "db_write f w = (Inr x, w') \<longleftrightarrow>
     (\<forall>e fs. faults w \<noteq> Some e # fs) \<and> w' = w\<lparr>store := f (store w), faults := tl (faults w)\<rparr>"
  by (auto simp: db_write_def db_call_Inr)

lemma now_eq: "now w = (r, w') \<longleftrightarrow> r = Inr (clock w (reads w)) \<and> w' = w\<lparr>reads := Suc (reads w)\<rparr>"
  by (auto simp: now_def)

lemma emit_eq: "emit x w = (r, w') \<longleftrightarrow> r = Inr () \<and> w' = w\<lparr>trace := trace w @ [x]\<rparr>"
  by (auto simp: emit_def)

lemmas run_iffs = bind_Inr seq_Inr ret_eq db_read_Inr db_write_Inr now_eq emit_eq

lemmas prim_defs =
  getStorefront_def putStorefront_def putProducts_def getProductCount_def
  markProductsRemoved_def getBackupCursor_def putBackupCursor_def deleteBackupCursor_def
  addLog_def estimateStorefrontSize_def notify_def delay_def onProgress_def

lemma getStorefront_put:
  "db_getStorefront k (db_putStorefront sf d) = (if k = sf_id sf then Some sf else db_getStorefront k d)"
  by (simp add: db_getStorefront_def db_putStorefront_def tbl_get_put)

lemma getStorefront_key: "db_getStorefront k d = Some sf \<Longrightarrow> sf_id sf = k"
  by (auto simp: db_getStorefront_def dest: tbl_get_key)

lemma getBackupCursor_put:
  "db_getBackupCursor k (db_putBackupCursor c d) = (if k = c_storefront_id c then Some c else db_getBackupCursor k d)"
  by (simp add: db_getBackupCursor_def db_putBackupCursor_def tbl_get_put)

lemma getBackupCursor_delete:
  "db_getBackupCursor k (db_deleteBackupCursor k' d) = (if k = k' then None else db_getBackupCursor k d)"
  by (simp add: db_getBackupCursor_def db_deleteBackupCursor_def tbl_get_delete)

lemma db_frames [simp]:
  "storefronts (db_addLog e d) = storefronts d"
  "products (db_addLog e d) = products d"
  "backup_cursors (db_addLog e d) = backup_cursors d"
  "products (db_putStorefront sf d) = products d"
  "backup_cursors (db_putStorefront sf d) = backup_cursors d"
  "logs (db_putStorefront sf d) = logs d"
  "storefronts (db_putBackupCursor c d) = storefronts d"
  "products (db_putBackupCursor c d) = products d"
  "logs (db_putBackupCursor c d) = logs d"
  "storefronts (db_deleteBackupCursor k d) = storefronts d"
  "products (db_deleteBackupCursor k d) = products d"
  "logs (db_deleteBackupCursor k d) = logs d"
  "storefronts (db_putProducts ps d) = storefronts d"
  "backup_cursors (db_putProducts ps d) = backup_cursors d"
  "logs (db_putProducts ps d) = logs d"
  "storefronts (db_markProductsRemoved sid ids t d) = storefronts d"
  "backup_cursors (db_markProductsRemoved sid ids t d) = backup_cursors d"
  "logs (db_markProductsRemoved sid ids t d) = logs d"
  by (simp_all add: db_addLog_def db_putStorefront_def db_putBackupCursor_def
      db_deleteBackupCursor_def db_putProducts_def db_markProductsRemoved_def)

lemma get_frames [simp]:
  "db_getStorefront k (db_addLog e d) = db_getStorefront k d"
  "db_getStorefront k (db_putBackupCursor c d) = db_getStorefront k d"
  "db_getStorefront k (db_deleteBackupCursor k' d) = db_getStorefront k d"
  "db_getStorefront k (db_putProducts ps d) = db_getStorefront k d"
  "db_getStorefront k (db_markProductsRemoved sid ids t d) = db_getStorefront k d"
  "db_getBackupCursor k (db_addLog e d) = db_getBackupCursor k d"
  "db_getBackupCursor k (db_putStorefront sf d) = db_getBackupCursor k d"
  "db_getBackupCursor k (db_putProducts ps d) = db_getBackupCursor k d"
  "db_getBackupCursor k (db_markProductsRemoved sid ids t d) = db_getBackupCursor k d"
  "db_getProduct k (db_addLog e d) = db_getProduct k d"
  "db_getProduct k (db_putStorefront sf d) = db_getProduct k d"
  "db_getProduct k (db_putBackupCursor c d) = db_getProduct k d"
  "db_getProduct k (db_deleteBackupCursor k' d) = db_getProduct k d"
  by (simp_all add: db_getStorefront_def db_getBackupCursor_def db_getProduct_def)

text \<open>What \<^const>\<open>markPartial\<close> leaves when it returns.\<close>

lemma markPartial_Inr:
  assumes "markPartial sid w = (Inr u, w')"
  shows "partial_if_stored sid (store w')"
    and "products (store w') = products (store w)"
    and "backup_cursors (store w') = backup_cursors (store w)"
    and "logs (store w') = logs (store w)"
    and "trace w' = trace w" and "paused w' = paused w" and "cancelled w' = cancelled w"
    and "db_getStorefront sid (store w') = map_option (\<lambda>sf. sf\<lparr>backup_status := Partial\<rparr>) (db_getStorefront sid (store w))"
  using assms
  by (auto simp: markPartial_def run_iffs prim_defs partial_if_stored_def getStorefront_put
      split: option.splits dest: getStorefront_key)

lemma kept_storefront: "kept (\<lambda>d. db_getStorefront sid d \<noteq> None)"
  by (simp add: kept_def kept0_def getStorefront_put)

lemma kept_cursor: "kept (\<lambda>d. db_getBackupCursor sid d \<noteq> None)"
  by (simp add: kept_def kept0_def getBackupCursor_put)

lemma kept0_products: "kept0 (\<lambda>d. products d = v)"
  by (simp add: kept0_def)

lemma pres_addLog: "kept0 P \<Longrightarrow> pres P (addLog e)"
  by (simp add: addLog_def kept0_def pres_db_write)

lemma pres_putStorefront: "kept0 P \<Longrightarrow> pres P (putStorefront sf)"
  by (simp add: putStorefront_def kept0_def pres_db_write)

lemma pres_putBackupCursor: "kept P \<Longrightarrow> pres P (putBackupCursor c)"
  by (simp add: putBackupCursor_def kept_def pres_db_write)

lemma pres_putProducts: "kept P \<Longrightarrow> pres P (putProducts ps)"
  by (simp add: putProducts_def kept_def pres_db_write)

lemma pres_markPartial: "kept0 P \<Longrightarrow> pres P (markPartial sid)"
  by (auto simp: markPartial_def getStorefront_def
      intro!: pres_bind pres_db_read pres_ret pres_putStorefront split: option.splits)

lemmas pres_intros =
  pres_bind pres_seq pres_ret pres_throw pres_now pres_emit pres_db_read
  pres_addLog pres_putStorefront pres_putBackupCursor pres_putProducts pres_markPartial
  pres_fetchPage pres_transformAll pres_flags

lemma pres_rate_limit_wait: "kept0 P \<Longrightarrow> pres P (rate_limit_wait sid r)"
  by (auto simp: rate_limit_wait_def delay_def intro!: pres_intros)

lemma pres_rate_limit_stop: "kept0 P \<Longrightarrow> pres P (rate_limit_stop sid)"
  by (auto simp: rate_limit_stop_def intro!: pres_intros)

lemma pres_process_page: "kept P \<Longrightarrow> pres P (process_page sid resp c seenIds)"
  by (auto simp: process_page_def notify_def delay_def onProgress_def Let_def kept_def
      intro!: pres_intros split: option.splits)

lemma fetch_with_retry_pres:
  assumes "kept0 P" and "fetch_with_retry sid c evs w = Some ((r, w'), evs')" and "P (store w)"
  shows "P (store w')"
proof -
  have a: "\<And>ev w r w'. fetchPage sid (cursor c) ev w = (r, w') \<Longrightarrow> P (store w) \<Longrightarrow> P (store w')"
    by (rule presD[OF pres_fetchPage])
  have b: "\<And>x w r w'. rate_limit_wait sid x w = (r, w') \<Longrightarrow> P (store w) \<Longrightarrow> P (store w')"
    by (rule presD[OF pres_rate_limit_wait[OF assms(1)]])
  have "\<And>ev. pres P (bind (fetchPage sid (cursor c) ev)
                 (\<lambda>retry. if throttled retry then seq (rate_limit_stop sid) (ret GaveUp)
                           else ret (Got retry)))"
    by (auto intro!: pres_intros pres_rate_limit_stop assms(1))
  then have c: "\<And>ev w r w'. bind (fetchPage sid (cursor c) ev)
                 (\<lambda>retry. if throttled retry then seq (rate_limit_stop sid) (ret GaveUp)
                           else ret (Got retry)) w = (r, w') \<Longrightarrow> P (store w) \<Longrightarrow> P (store w')"
    by (rule presD)
  show ?thesis
    using assms(2,3)
    by (auto simp: fetch_with_retry_def split: list.splits prod.splits sum.splits if_splits
        dest: a b c)
qed

lemma fetch_with_retry_shorter:
  "fetch_with_retry sid c evs w = Some (r, evs') \<Longrightarrow> length evs' < length evs"
  by (auto simp: fetch_with_retry_def split: list.splits prod.splits sum.splits if_splits)

text \<open>The rule of the loop: an invariant \<open>I\<close> of the iterations gives \<open>Q\<close> at the exit.\<close>

lemma loop_rule:
  assumes brk: "\<And>c seenIds w. I c seenIds w \<Longrightarrow> paused w \<or> cancelled w \<Longrightarrow> Q (LBreak c seenIds) w"
    and gave: "\<And>c seenIds w evs w1 evs'. I c seenIds w \<Longrightarrow> \<not> paused w \<Longrightarrow> \<not> cancelled w \<Longrightarrow>
                 fetch_with_retry sid c evs w = Some ((Inr GaveUp, w1), evs') \<Longrightarrow>
                 Q (LReturn StopRateLimited seenIds) w1"
    and step: "\<And>c seenIds w evs resp w1 evs' pr w2. I c seenIds w \<Longrightarrow> \<not> paused w \<Longrightarrow> \<not> cancelled w \<Longrightarrow>
                 fetch_with_retry sid c evs w = Some ((Inr (Got resp), w1), evs') \<Longrightarrow>
                 process_page sid resp c seenIds w1 = (Inr pr, w2) \<Longrightarrow>
                 (case pr of
                    Return s \<Rightarrow> Q (LReturn s seenIds) w2
                  | Break c' seenIds' \<Rightarrow> Q (LBreak c' seenIds') w2
                  | Continue c' seenIds' \<Rightarrow> I c' seenIds' w2)"
  shows "loop sid evs c seenIds w = Some (Inr ex, w') \<Longrightarrow> I c seenIds w \<Longrightarrow> Q ex w'"
proof (induction "length evs" arbitrary: evs c seenIds w rule: less_induct)
  case less
  note lp = less.prems(1) and i = less.prems(2)
  show ?case
  proof (cases "paused w \<or> cancelled w")
    case True
    with lp have "ex = LBreak c seenIds" "w' = w"
      by (simp_all add: loop.simps)
    with brk[OF i True] show ?thesis by simp
  next
    case False
    then have np: "\<not> paused w" "\<not> cancelled w" by simp_all
    from lp False obtain f w1 evs' where
      f: "fetch_with_retry sid c evs w = Some ((Inr f, w1), evs')"
      by (subst (asm) loop.simps) (auto split: option.splits prod.splits sum.splits)
    show ?thesis
    proof (cases f)
      case GaveUp
      with lp False f have "ex = LReturn StopRateLimited seenIds" "w' = w1"
        by (simp_all add: loop.simps)
      with gave[OF i np] f GaveUp show ?thesis by simp
    next
      case (Got resp)
      with lp False f obtain pr w2 where
        pp: "process_page sid resp c seenIds w1 = (Inr pr, w2)"
        by (subst (asm) loop.simps) (auto split: prod.splits sum.splits)
      note st = step[OF i np f[unfolded Got] pp]
      show ?thesis
      proof (cases pr)
        case (Return s)
        with lp False f Got pp have "ex = LReturn s seenIds" "w' = w2"
          by (simp_all add: loop.simps)
        with st Return show ?thesis by simp
      next
        case (Continue c' seenIds')
        with lp False f Got pp have l2: "loop sid evs' c' seenIds' w2 = Some (Inr ex, w')"
          by (simp add: loop.simps)
        have sh: "length evs' < length evs"
          by (rule fetch_with_retry_shorter[OF f])
        from st Continue have "I c' seenIds' w2" by simp
        from less.hyps[OF sh l2 this] show ?thesis .
      next
        case (Break c' seenIds')
        with lp False f Got pp have "ex = LBreak c' seenIds'" "w' = w2"
          by (simp_all add: loop.simps)
        with st Break show ?thesis by simp
      qed
    qed
  qed
qed

lemma rate_limit_stop_Inr:
  "rate_limit_stop sid w = (Inr u, w') \<Longrightarrow> partial_if_stored sid (store w')"
  by (auto simp: rate_limit_stop_def run_iffs dest: markPartial_Inr(1))

lemma fetch_gave_up:
  "fetch_with_retry sid c evs w = Some ((Inr GaveUp, w1), evs') \<Longrightarrow>
     partial_if_stored sid (store w1)"
  by (auto simp: fetch_with_retry_def run_iffs
      split: list.splits prod.splits sum.splits if_splits dest: rate_limit_stop_Inr)

lemma process_page_Return:
  assumes "process_page sid resp c seenIds w = (Inr (Return s), w')"
  shows "partial_if_stored sid (store w')" and "products (store w') = products (store w)"
    and "s = StopHttp \<or> s = StopMissingData"
  using assms
  by (auto simp: process_page_def run_iffs prim_defs Let_def
      split: if_splits option.splits dest: markPartial_Inr(1,2))

lemma process_page_more:
  assumes "process_page sid resp c seenIds w = (Inr pr, w')"
    and "pr = Continue c' seenIds' \<or> pr = Break c' seenIds'"
  shows "\<exists>ps. products (store w') = foldl (\<lambda>tbl p. tbl_put p_id p tbl) (products (store w)) ps
              \<and> seenIds' = seenIds \<union> set (map p_id ps)
              \<and> (\<forall>p \<in> set ps. removed_at p = None \<and> p_storefront_id p = sid)"
proof -
  from assms have "\<exists>ns ps w1. transformAll sid ns w = (Inr ps, w1)
      \<and> products (store w') = foldl (\<lambda>tbl p. tbl_put p_id p tbl) (products (store w1)) ps
      \<and> seenIds' = seenIds \<union> set (map p_id ps)"
    by (auto simp: process_page_def run_iffs prim_defs Let_def db_putProducts_def
        split: if_splits option.splits; blast)
  then obtain ns ps w1 where t: "transformAll sid ns w = (Inr ps, w1)"
    and p: "products (store w') = foldl (\<lambda>tbl p. tbl_put p_id p tbl) (products (store w1)) ps"
    and s: "seenIds' = seenIds \<union> set (map p_id ps)"
    by blast
  from transformAll_Inr[OF t] have st: "store w1 = store w"
    and "list_all2 (\<lambda>n p. p_id p = sid @ ''::'' @ g_id n \<and> p_storefront_id p = sid
                          \<and> removed_at p = None) ns ps"
    by simp_all
  then have "\<forall>p \<in> set ps. removed_at p = None \<and> p_storefront_id p = sid"
    by (auto simp: list_all2_conv_all_nth in_set_conv_nth)
  with p s st show ?thesis by auto
qed

lemma load_storefront_Inr:
  assumes "load_storefront sid w = (Inr sf, w1)"
  shows "db_getStorefront sid (store w1) = Some sf" and "sf_id sf = sid"
    and "products (store w1) = products (store w)"
  using assms
  by (auto simp: load_storefront_def run_iffs prim_defs Let_def getStorefront_put
      split: option.splits dest: getStorefront_key)

lemma load_cursor_Inr:
  assumes "load_cursor sid w = (Inr c, w1)"
  shows "db_getBackupCursor sid (store w1) \<noteq> None"
    and "storefronts (store w1) = storefronts (store w)"
    and "products (store w1) = products (store w)"
  using assms
  by (auto simp: load_cursor_def run_iffs prim_defs Let_def getBackupCursor_put
      split: option.splits)

lemma post_loop_Inr:
  assumes "post_loop sid sf c seenIds w = (Inr (s, seenIds'), w')"
  shows "seenIds' = seenIds
         \<and> (s = StopCancelled \<and> finish_cancelled sid w = (Inr (), w')
            \<or> s = StopPaused \<and> finish_paused sid sf c w = (Inr (), w')
            \<or> s = StopComplete \<and> finish_complete sid sf seenIds w = (Inr (), w'))"
  using assms
  by (auto simp: post_loop_def run_iffs is_cancelled_def is_paused_def split: if_splits)

lemma finish_cancelled_Inr:
  assumes "finish_cancelled sid w = (Inr u, w')"
  shows "partial_if_stored sid (store w')" and "db_getBackupCursor sid (store w') = None"
    and "products (store w') = products (store w)"
    and "db_getStorefront sid (store w) \<noteq> None \<Longrightarrow> db_getStorefront sid (store w') \<noteq> None"
  using assms
  by (auto simp: finish_cancelled_def run_iffs prim_defs getBackupCursor_delete
      partial_if_stored_def dest: markPartial_Inr)

lemma finish_paused_Inr:
  assumes "finish_paused sid sf c w = (Inr u, w')" and "sf_id sf = sid"
  shows "db_getStorefront sid (store w') = Some (sf\<lparr>backup_status := Paused\<rparr>)"
    and "backup_cursors (store w') = backup_cursors (store w)"
    and "products (store w') = products (store w)"
  using assms
  by (auto simp: finish_paused_def run_iffs prim_defs getStorefront_put)

lemma finish_complete_Inr:
  assumes "finish_complete sid sf seenIds w = (Inr u, w')" and "sf_id sf = sid"
  shows "\<exists>t n z. db_getStorefront sid (store w')
                  = Some (sf\<lparr>backup_status := Complete, last_backup_at := Some t,
                            product_count := n, size_bytes := z\<rparr>)
               \<and> products (store w') = products (db_markProductsRemoved sid seenIds t (store w))"
    and "db_getBackupCursor sid (store w') = None"
  using assms
  by (auto simp: finish_complete_def run_iffs prim_defs getStorefront_put getBackupCursor_delete)

lemma on_error_Inr:
  assumes "on_error sid error w = (Inr u, w')"
  shows "partial_if_stored sid (store w')" and "products (store w') = products (store w)"
    and "backup_cursors (store w') = backup_cursors (store w)"
  using assms
  by (auto simp: on_error_def run_iffs prim_defs partial_if_stored_def
      split: if_splits dest: markPartial_Inr)

lemma run_body_Inr:
  assumes "run_body sid evs w = Some (Inr (s, seenIds), w')"
  obtains sf w1 c w2 ex w3 where
    "load_storefront sid w = (Inr sf, w1)" and "load_cursor sid w1 = (Inr c, w2)"
    and "loop sid evs c {} w2 = Some (Inr ex, w3)"
    and "ex = LReturn s seenIds \<and> w' = w3
         \<or> (\<exists>c'. ex = LBreak c' seenIds \<and> post_loop sid sf c' seenIds w3 = (Inr (s, seenIds), w'))"
proof -
  from assms obtain sf w1 where 1: "load_storefront sid w = (Inr sf, w1)"
    by (auto simp: run_body_def split: prod.splits sum.splits)
  with assms obtain c w2 where 2: "load_cursor sid w1 = (Inr c, w2)"
    by (auto simp: run_body_def split: prod.splits sum.splits)
  with assms 1 obtain ex w3 where 3: "loop sid evs c {} w2 = Some (Inr ex, w3)"
    by (auto simp: run_body_def split: prod.splits sum.splits option.splits)
  show ?thesis
  proof (cases ex)
    case (LReturn s' ids)
    with assms 1 2 3 that[OF 1 2 3] show ?thesis
      by (auto simp: run_body_def)
  next
    case (LBreak c' ids)
    with assms 1 2 3 have "post_loop sid sf c' ids w3 = (Inr (s, seenIds), w')"
      by (auto simp: run_body_def)
    with post_loop_Inr[OF this] that[OF 1 2 3] LBreak show ?thesis
      by auto
  qed
qed

lemma loop_status:
  assumes "loop sid evs c seenIds w = Some (Inr ex, w')"
    and "db_getStorefront sid (store w) \<noteq> None" and "db_getBackupCursor sid (store w) \<noteq> None"
  shows "db_getStorefront sid (store w') \<noteq> None \<and> db_getBackupCursor sid (store w') \<noteq> None
         \<and> (case ex of
               LReturn s ids \<Rightarrow> partial_if_stored sid (store w')
                  \<and> (s = StopRateLimited \<or> s = StopHttp \<or> s = StopMissingData)
             | LBreak c' ids \<Rightarrow> True)"
proof (rule loop_rule[where sid = sid
      and I = "\<lambda>c ids w. db_getStorefront sid (store w) \<noteq> None
                         \<and> db_getBackupCursor sid (store w) \<noteq> None", OF _ _ _ assms(1)])
  show "db_getStorefront sid (store w) \<noteq> None \<and> db_getBackupCursor sid (store w) \<noteq> None"
    using assms(2,3) by simp
next
  fix c ids w
  assume "db_getStorefront sid (store w) \<noteq> None \<and> db_getBackupCursor sid (store w) \<noteq> None"
  then show "db_getStorefront sid (store w) \<noteq> None \<and> db_getBackupCursor sid (store w) \<noteq> None
         \<and> (case LBreak c ids of
               LReturn s ids \<Rightarrow> partial_if_stored sid (store w)
                  \<and> (s = StopRateLimited \<or> s = StopHttp \<or> s = StopMissingData)
             | LBreak c' ids \<Rightarrow> True)"
    by simp
next
  fix c ids w evs w1 evs'
  assume i: "db_getStorefront sid (store w) \<noteq> None \<and> db_getBackupCursor sid (store w) \<noteq> None"
    and f: "fetch_with_retry sid c evs w = Some ((Inr GaveUp, w1), evs')"
  from fetch_with_retry_pres[OF _ f, of "\<lambda>d. db_getStorefront sid d \<noteq> None"]
    fetch_with_retry_pres[OF _ f, of "\<lambda>d. db_getBackupCursor sid d \<noteq> None"]
    kept_storefront[of sid] kept_cursor[of sid] i fetch_gave_up[OF f]
  show "db_getStorefront sid (store w1) \<noteq> None \<and> db_getBackupCursor sid (store w1) \<noteq> None
         \<and> (case LReturn StopRateLimited ids of
               LReturn s ids \<Rightarrow> partial_if_stored sid (store w1)
                  \<and> (s = StopRateLimited \<or> s = StopHttp \<or> s = StopMissingData)
             | LBreak c' ids \<Rightarrow> True)"
    by (simp add: kept_def)
next
  fix c ids w evs resp w1 evs' pr w2
  assume i: "db_getStorefront sid (store w) \<noteq> None \<and> db_getBackupCursor sid (store w) \<noteq> None"
    and f: "fetch_with_retry sid c evs w = Some ((Inr (Got resp), w1), evs')"
    and p: "process_page sid resp c ids w1 = (Inr pr, w2)"
  from fetch_with_retry_pres[OF _ f, of "\<lambda>d. db_getStorefront sid d \<noteq> None"]
    fetch_with_retry_pres[OF _ f, of "\<lambda>d. db_getBackupCursor sid d \<noteq> None"]
    kept_storefront[of sid] kept_cursor[of sid] i
  have i1: "db_getStorefront sid (store w1) \<noteq> None" "db_getBackupCursor sid (store w1) \<noteq> None"
    by (simp_all add: kept_def)
  from presD[OF pres_process_page[OF kept_storefront[of sid]] p i1(1)]
    presD[OF pres_process_page[OF kept_cursor[of sid]] p i1(2)]
  have i2: "db_getStorefront sid (store w2) \<noteq> None" "db_getBackupCursor sid (store w2) \<noteq> None" .
  show "case pr of
          Return s \<Rightarrow> db_getStorefront sid (store w2) \<noteq> None \<and> db_getBackupCursor sid (store w2) \<noteq> None
             \<and> (case LReturn s ids of
               LReturn s ids \<Rightarrow> partial_if_stored sid (store w2)
                  \<and> (s = StopRateLimited \<or> s = StopHttp \<or> s = StopMissingData)
             | LBreak c' ids \<Rightarrow> True)
        | Continue c' ids' \<Rightarrow> db_getStorefront sid (store w2) \<noteq> None \<and> db_getBackupCursor sid (store w2) \<noteq> None
        | Break c' ids' \<Rightarrow> db_getStorefront sid (store w2) \<noteq> None \<and> db_getBackupCursor sid (store w2) \<noteq> None
             \<and> (case LBreak c' ids' of
               LReturn s ids \<Rightarrow> partial_if_stored sid (store w2)
                  \<and> (s = StopRateLimited \<or> s = StopHttp \<or> s = StopMissingData)
             | LBreak c' ids \<Rightarrow> True)"
    using i2 process_page_Return(1,3)[of sid resp c ids w1 _ w2] p
    by (cases pr) auto
qed

lemma seen_inv_puts:
  assumes "seen_inv tbl0 sid ids tbl"
    and "\<forall>p \<in> set ps. removed_at p = None \<and> p_storefront_id p = sid"
  shows "seen_inv tbl0 sid (ids \<union> set (map p_id ps)) (foldl (\<lambda>tbl p. tbl_put p_id p tbl) tbl ps)"
proof -
  have none: "\<And>k. k \<notin> set (map p_id ps) \<Longrightarrow> find (\<lambda>p. p_id p = k) (rev ps) = None"
    by (auto simp: find_None_iff)
  have some: "\<And>k p. find (\<lambda>p. p_id p = k) (rev ps) = Some p \<Longrightarrow>
                 removed_at p = None \<and> p_storefront_id p = sid"
    using assms(2) by (auto dest!: find_SomeD)
  show ?thesis
    unfolding seen_inv_def
  proof (intro conjI allI impI ballI)
    fix k assume "k \<notin> ids \<union> set (map p_id ps)"
    with assms(1) none[of k]
    show "tbl_get p_id (foldl (\<lambda>tbl p. tbl_put p_id p tbl) tbl ps) k = tbl_get p_id tbl0 k"
      by (simp add: tbl_get_puts seen_inv_def)
  next
    fix k assume k: "k \<in> ids \<union> set (map p_id ps)"
    show "\<exists>p. tbl_get p_id (foldl (\<lambda>tbl p. tbl_put p_id p tbl) tbl ps) k = Some p
               \<and> removed_at p = None \<and> p_storefront_id p = sid"
    proof (cases "find (\<lambda>p. p_id p = k) (rev ps)")
      case None
      then have "k \<notin> set (map p_id ps)"
        by (auto simp: find_None_iff)
      with k assms(1) None show ?thesis
        by (auto simp: tbl_get_puts seen_inv_def)
    next
      case (Some p)
      with some[OF Some] show ?thesis
        by (simp add: tbl_get_puts)
    qed
  qed
qed

lemma loop_seen:
  assumes "loop sid evs c seenIds w = Some (Inr ex, w')"
    and "seen_inv tbl0 sid seenIds (products (store w))"
  shows "seen_inv tbl0 sid (seen_of ex) (products (store w'))"
proof (rule loop_rule[where sid = sid
      and I = "\<lambda>c ids w. seen_inv tbl0 sid ids (products (store w))"
      and Q = "\<lambda>ex w. seen_inv tbl0 sid (seen_of ex) (products (store w))", OF _ _ _ assms])
  fix c ids w
  assume "seen_inv tbl0 sid ids (products (store w))"
  then show "seen_inv tbl0 sid (seen_of (LBreak c ids)) (products (store w))"
    by simp
next
  fix c ids w evs w1 evs'
  assume i: "seen_inv tbl0 sid ids (products (store w))"
    and f: "fetch_with_retry sid c evs w = Some ((Inr GaveUp, w1), evs')"
  from fetch_with_retry_pres[OF kept0_products f, of "products (store w)"] i
  show "seen_inv tbl0 sid (seen_of (LReturn StopRateLimited ids)) (products (store w1))"
    by simp
next
  fix c ids w evs resp w1 evs' pr w2
  assume i: "seen_inv tbl0 sid ids (products (store w))"
    and f: "fetch_with_retry sid c evs w = Some ((Inr (Got resp), w1), evs')"
    and p: "process_page sid resp c ids w1 = (Inr pr, w2)"
  from fetch_with_retry_pres[OF kept0_products f, of "products (store w)"] i
  have i1: "seen_inv tbl0 sid ids (products (store w1))"
    by simp
  show "case pr of
          Return s \<Rightarrow> seen_inv tbl0 sid (seen_of (LReturn s ids)) (products (store w2))
        | Continue c' ids' \<Rightarrow> seen_inv tbl0 sid ids' (products (store w2))
        | Break c' ids' \<Rightarrow> seen_inv tbl0 sid (seen_of (LBreak c' ids')) (products (store w2))"
  proof (cases pr)
    case (Return s)
    with process_page_Return(2)[of sid resp c ids w1 s w2] p i1 show ?thesis
      by simp
  next
    case (Continue c' ids')
    with process_page_more[OF p, of c' ids'] seen_inv_puts[OF i1] show ?thesis
      by auto
  next
    case (Break c' ids')
    with process_page_more[OF p, of c' ids'] seen_inv_puts[OF i1] show ?thesis
      by auto
  qed
qed

lemma getProduct_marked:
  "tbl_get p_id (products (db_markProductsRemoved sid ids t d)) k =
     map_option (\<lambda>p. if p_storefront_id p = sid \<and> p_id p \<notin> ids \<and> removed_at p = None
                      then p\<lparr>removed_at := Some t\<rparr> else p)
       (tbl_get p_id (products d) k)"
  by (simp add: db_markProductsRemoved_def tbl_get_map)

lemma seen_inv_unseen:
  "seen_inv tbl0 sid ids tbl \<Longrightarrow> k \<notin> ids \<Longrightarrow> tbl_get p_id tbl k = tbl_get p_id tbl0 k"
  by (simp add: seen_inv_def)

lemma seen_inv_seen:
  "seen_inv tbl0 sid ids tbl \<Longrightarrow> k \<in> ids \<Longrightarrow>
     \<exists>p. tbl_get p_id tbl k = Some p \<and> removed_at p = None \<and> p_storefront_id p = sid"
  by (simp add: seen_inv_def)

lemma run_Ended:
  "run sid evs w = Some (Inr (Ended s seenIds), w') \<Longrightarrow>
     run_body sid evs w = Some (Inr (s, seenIds), w')"
  by (auto simp: run_def split: option.splits prod.splits sum.splits)

lemma process_page_Continue:
  "process_page sid resp c seenIds w = (Inr (Continue c' ids'), w') \<Longrightarrow>
     status resp = 200 \<and> (\<exists>pd. data (body resp) = Some pd \<and> hasNextPage (pageInfo pd))"
  by (auto simp: process_page_def run_iffs prim_defs Let_def split: if_splits option.splits)

lemma fetchPage_Inr:
  "fetchPage sid cur ev w = (Inr resp, w') \<Longrightarrow>
     \<exists>st json hdr. outcome ev = Resp st json hdr \<and> resp = answer st json hdr"
  by (auto simp: fetchPage_def Let_def split: fetch_outcome.splits)

lemma fetch_with_retry_some:
  "2 \<le> length evs \<Longrightarrow> fetch_with_retry sid c evs w \<noteq> None"
  by (cases evs; cases "tl evs")
     (auto simp: fetch_with_retry_def split: prod.splits sum.splits)

lemma fetch_with_retry_Got:
  assumes "fetch_with_retry sid c evs w = Some ((Inr (Got resp), w1), evs')"
  shows "\<exists>ev. (evs = ev # evs' \<or> (\<exists>ev0. evs = ev0 # ev # evs')) \<and> \<not> throttled resp
           \<and> (\<exists>st json hdr. outcome ev = Resp st json hdr \<and> resp = answer st json hdr)"
proof (cases evs)
  case Nil
  with assms show ?thesis by (simp add: fetch_with_retry_def)
next
  case (Cons ev evs1)
  obtain r1 w1' where f1: "fetchPage sid (cursor c) ev w = (r1, w1')"
    by (cases "fetchPage sid (cursor c) ev w")
  show ?thesis
  proof (cases r1)
    case (Inl e)
    with assms Cons f1 show ?thesis by (simp add: fetch_with_retry_def)
  next
    case (Inr resp1)
    show ?thesis
    proof (cases "throttled resp1")
      case False
      with assms Cons f1 Inr have "resp = resp1" "evs' = evs1"
        by (simp_all add: fetch_with_retry_def)
      with fetchPage_Inr[OF f1[unfolded Inr]] False Cons show ?thesis
        by (intro exI[of _ ev]) simp
    next
      case True
      with assms Cons f1 Inr obtain w2 ev2 where
        e1: "evs1 = ev2 # evs'"
        and b: "bind (fetchPage sid (cursor c) ev2)
                 (\<lambda>retry. if throttled retry then seq (rate_limit_stop sid) (ret GaveUp)
                           else ret (Got retry)) w2 = (Inr (Got resp), w1)"
        by (auto simp: fetch_with_retry_def split: prod.splits sum.splits list.splits)
      from b have "fetchPage sid (cursor c) ev2 w2 = (Inr resp, w1) \<and> \<not> throttled resp"
        by (auto simp: run_iffs split: if_splits)
      with fetchPage_Inr[of sid "cursor c" ev2 w2 resp w1] Cons e1 show ?thesis
        by (intro exI[of _ ev2]) simp
    qed
  qed
qed

lemma loop_returns:
  assumes "\<not> continuing a" and "\<not> continuing b"
  shows "loop sid (pre @ [a, b]) c seenIds w \<noteq> None"
proof (induction "length pre" arbitrary: pre c seenIds w rule: less_induct)
  case less
  let ?evs = "pre @ [a, b]"
  show ?case
  proof (cases "paused w \<or> cancelled w")
    case True
    then show ?thesis by (simp add: loop.simps)
  next
    case False
    have "fetch_with_retry sid c ?evs w \<noteq> None"
      by (rule fetch_with_retry_some) simp
    then obtain f w1 evs' where f: "fetch_with_retry sid c ?evs w = Some ((f, w1), evs')"
      by (cases "fetch_with_retry sid c ?evs w") auto
    show ?thesis
    proof (cases f)
      case (Inl e)
      with False f show ?thesis by (simp add: loop.simps)
    next
      case (Inr g)
      show ?thesis
      proof (cases g)
        case GaveUp
        with False f Inr show ?thesis by (simp add: loop.simps)
      next
        case (Got resp)
        obtain pr w2 where pp: "process_page sid resp c seenIds w1 = (pr, w2)"
          by (cases "process_page sid resp c seenIds w1")
        show ?thesis
        proof (cases pr)
          case (Inl e)
          with False f Inr Got pp show ?thesis by (simp add: loop.simps)
        next
          case r: (Inr res)
          show ?thesis
          proof (cases res)
            case (Return s)
            with False f Inr Got pp r show ?thesis by (simp add: loop.simps)
          next
            case (Break c' ids')
            with False f Inr Got pp r show ?thesis by (simp add: loop.simps)
          next
            case (Continue c' ids')
            from fetch_with_retry_Got[OF f[unfolded Inr Got]] obtain ev st json hdr where
              u: "?evs = ev # evs' \<or> (\<exists>ev0. ?evs = ev0 # ev # evs')" "\<not> throttled resp"
                "outcome ev = Resp st json hdr" "resp = answer st json hdr"
              by blast
            from process_page_Continue[OF pp[unfolded r Continue]] u(2,3,4)
            have ce: "continuing ev"
              by (auto simp: continuing_def answer_def)
            with assms have ne: "ev \<noteq> a" "ev \<noteq> b" by auto
            have "\<exists>pre'. evs' = pre' @ [a, b] \<and> length pre' < length pre"
            proof (cases pre)
              case Nil
              with u(1) ne show ?thesis by auto
            next
              case c1: (Cons x pre1)
              show ?thesis
              proof (cases pre1)
                case Nil
                with u(1) ne c1 show ?thesis by auto
              next
                case c2: (Cons y pre2)
                from u(1) show ?thesis
                proof
                  assume "?evs = ev # evs'"
                  with c1 c2 have "evs' = (y # pre2) @ [a, b]" by simp
                  with c1 c2 show ?thesis by (intro exI[of _ "y # pre2"]) simp
                next
                  assume "\<exists>ev0. ?evs = ev0 # ev # evs'"
                  with c1 c2 have "evs' = pre2 @ [a, b]" by auto
                  with c1 c2 show ?thesis by (intro exI[of _ pre2]) simp
                qed
              qed
            qed
            then obtain pre' where p': "evs' = pre' @ [a, b]" "length pre' < length pre"
              by blast
            from less.hyps[OF p'(2), of c' ids' w2] False f Inr Got pp r Continue p'(1)
            show ?thesis by (simp add: loop.simps)
          qed
        qed
      qed
    qed
  qed
qed

lemma run_body_returns:
  assumes "\<not> continuing a" and "\<not> continuing b"
  shows "run_body sid (pre @ [a, b]) w \<noteq> None"
proof -
  obtain r1 w1 where 1: "load_storefront sid w = (r1, w1)"
    by (cases "load_storefront sid w")
  obtain r2 w2 where 2: "load_cursor sid w1 = (r2, w2)"
    by (cases "load_cursor sid w1")
  show ?thesis
  proof (cases r1)
    case (Inl e)
    with 1 show ?thesis by (simp add: run_body_def)
  next
    case sf: (Inr sf)
    show ?thesis
    proof (cases r2)
      case (Inl e)
      with 1 2 sf show ?thesis by (simp add: run_body_def)
    next
      case (Inr c)
      from loop_returns[OF assms, of sid pre c "{}" w2] 1 2 sf Inr show ?thesis
        by (auto simp: run_body_def split: prod.splits sum.splits loop_exit.splits)
    qed
  qed
qed

lemma db_call_ok:
  "\<forall>e fs. faults w \<noteq> Some e # fs \<Longrightarrow>
     db_call f w = (Inr (fst (f (store w))), w\<lparr>store := snd (f (store w)), faults := tl (faults w)\<rparr>)"
  by (auto simp: db_call_def split: list.splits option.splits prod.splits)

lemma no_fault_next:
  assumes "\<forall>e. Some e \<notin> set (take (Suc n) fs)"
  shows "\<forall>e r. fs \<noteq> Some e # r" and "\<forall>e. Some e \<notin> set (take n (tl fs))"
proof -
  show "\<forall>e r. fs \<noteq> Some e # r"
  proof (intro allI notI)
    fix e r assume "fs = Some e # r"
    with assms show False by auto
  qed
  show "\<forall>e. Some e \<notin> set (take n (tl fs))"
    using assms by (cases fs) auto
qed

lemma three_ok:
  assumes "\<forall>e. Some e \<notin> set (take 3 fs)"
  shows "\<forall>e r. fs \<noteq> Some e # r" and "\<forall>e r. tl fs \<noteq> Some e # r"
    and "\<forall>e r. tl (tl fs) \<noteq> Some e # r"
proof -
  from assms have 3: "\<forall>e. Some e \<notin> set (take (Suc (Suc (Suc 0))) fs)"
    by (simp add: numeral_3_eq_3)
  note a = no_fault_next[OF 3]
  note b = no_fault_next[OF a(2)]
  note c = no_fault_next[OF b(2)]
  show "\<forall>e r. fs \<noteq> Some e # r" by (rule a(1))
  show "\<forall>e r. tl fs \<noteq> Some e # r" by (rule b(1))
  show "\<forall>e r. tl (tl fs) \<noteq> Some e # r" by (rule c(1))
qed

lemma logs_addLog [simp]: "logs (db_addLog e d) = logs d @ [e\<lparr>l_id := next_log_id d\<rparr>]"
  by (simp add: db_addLog_def)

lemma markPartial_ok:
  assumes "\<forall>e r. faults w \<noteq> Some e # r" and "\<forall>e r. tl (faults w) \<noteq> Some e # r"
  shows "\<exists>w'. markPartial sid w = (Inr (), w')
           \<and> store w' = (case db_getStorefront sid (store w) of
                           None \<Rightarrow> store w
                         | Some sf \<Rightarrow> db_putStorefront (sf\<lparr>backup_status := Partial\<rparr>) (store w))
           \<and> (faults w' = tl (faults w) \<or> faults w' = tl (tl (faults w)))
           \<and> trace w' = trace w \<and> reads w' = reads w \<and> clock w' = clock w"
  using assms
  by (cases "db_getStorefront sid (store w)")
     (simp_all add: markPartial_def getStorefront_def putStorefront_def db_read_def db_write_def
        db_call_ok bind_def ret_def)

lemma log_after_ok:
  assumes "\<forall>e r. faults w \<noteq> Some e # r"
  shows "\<exists>w'. bind now (\<lambda>t. addLog (log_entry sid t lv msg dt)) w = (Inr (), w')
           \<and> store w' = db_addLog (log_entry sid (clock w (reads w)) lv msg dt) (store w)
           \<and> trace w' = trace w"
  using assms
  by (simp add: addLog_def db_write_def db_call_ok bind_def now_def)

lemma on_error_ok:
  assumes "\<forall>e. Some e \<notin> set (take 3 (faults w))"
  shows "\<exists>w'. on_error sid error w = (Inr (), w')
           \<and> products (store w') = products (store w)
           \<and> backup_cursors (store w') = backup_cursors (store w)
           \<and> db_getStorefront sid (store w')
               = map_option (\<lambda>sf. sf\<lparr>backup_status := Partial\<rparr>) (db_getStorefront sid (store w))
           \<and> map (\<lambda>e. (l_storefront_id e, level e, l_message e)) (logs (store w'))
               = map (\<lambda>e. (l_storefront_id e, level e, l_message e)) (logs (store w))
                 @ [(sid, LError,
                     if is_quota_error error then ''Storage quota exceeded''
                     else ''Unexpected error during backup: '' @ error_message error)]
           \<and> trace w' = trace w
               @ (if is_quota_error error
                  then [Notify ''Backup stopped''
                          (''Backup stopped: Storage quota exceeded for '' @ sid
                             @ ''. Open the extension to review.'')]
                  else [])"
proof -
  note ok = three_ok[OF assms]
  from markPartial_ok[OF ok(1,2), of sid] obtain w1 where
    m: "markPartial sid w = (Inr (), w1)"
    and s1: "store w1 = (case db_getStorefront sid (store w) of
                           None \<Rightarrow> store w
                         | Some sf \<Rightarrow> db_putStorefront (sf\<lparr>backup_status := Partial\<rparr>) (store w))"
    and f1: "faults w1 = tl (faults w) \<or> faults w1 = tl (tl (faults w))"
    and t1: "trace w1 = trace w"
    by blast
  from f1 ok(2,3) have ok1: "\<forall>e r. faults w1 \<noteq> Some e # r"
    by auto
  have g1: "db_getStorefront sid (store w1)
               = map_option (\<lambda>sf. sf\<lparr>backup_status := Partial\<rparr>) (db_getStorefront sid (store w))"
    and p1: "products (store w1) = products (store w)"
    and c1: "backup_cursors (store w1) = backup_cursors (store w)"
    and l1: "logs (store w1) = logs (store w)"
    using s1 getStorefront_key[of sid "store w"]
    by (auto simp: getStorefront_put split: option.splits)
  show ?thesis
  proof (cases "is_quota_error error")
    case True
    let ?n = "Notify ''Backup stopped''
                (''Backup stopped: Storage quota exceeded for '' @ sid
                   @ ''. Open the extension to review.'')"
    let ?w2 = "w1\<lparr>trace := trace w1 @ [?n]\<rparr>"
    have ok2: "\<forall>e r. faults ?w2 \<noteq> Some e # r"
      using ok1 by simp
    from log_after_ok[OF ok2, of sid LError "''Storage quota exceeded''" None] obtain w3 where
      l: "bind now (\<lambda>t. addLog (log_entry sid t LError ''Storage quota exceeded'' None)) ?w2
            = (Inr (), w3)"
      and s3: "store w3 = db_addLog (log_entry sid (clock ?w2 (reads ?w2)) LError
                            ''Storage quota exceeded'' None) (store ?w2)"
      and t3: "trace w3 = trace ?w2"
      by blast
    have "on_error sid error w = (Inr (), w3)"
      using True m l by (simp add: on_error_def seq_run notify_def emit_def)
    with s3 t3 g1 p1 c1 l1 t1 True show ?thesis
      by (simp add: log_entry_def)
  next
    case False
    let ?msg = "''Unexpected error during backup: '' @ error_message error"
    from log_after_ok[OF ok1, of sid LError ?msg None] obtain w3 where
      l: "bind now (\<lambda>t. addLog (log_entry sid t LError ?msg None)) w1 = (Inr (), w3)"
      and s3: "store w3 = db_addLog (log_entry sid (clock w1 (reads w1)) LError ?msg None) (store w1)"
      and t3: "trace w3 = trace w1"
      by blast
    have "on_error sid error w = (Inr (), w3)"
      using False m l by (simp add: on_error_def seq_run)
    with s3 t3 g1 p1 c1 l1 t1 False show ?thesis
      by (simp add: log_entry_def)
  qed
qed

subsection \<open>Definitions to unfold on sample inputs\<close>

lemmas run_defs =
  run_def run_body_def load_storefront_def load_cursor_def post_loop_def
  finish_complete_def finish_paused_def finish_cancelled_def on_error_def
  process_page_def fetch_with_retry_def fetchPage_def answer_def throttled_def isThrottled_def
  rate_limit_wait_def rate_limit_stop_def markPartial_def waitMs_def
  transform_io_def transformProduct_def map_nodes_def extractShopifyId_def
  is_cancelled_def is_paused_def is_quota_error_def error_message_def complete_message_def
  log_entry_def graphql_url_def status_of_def has_cursor_def resuming_def

lemmas db_defs =
  db_getStorefront_def db_putStorefront_def db_getProduct_def db_putProducts_def
  db_getProductsByStorefront_def db_getProductCount_def db_markProductsRemoved_def
  db_getBackupCursor_def db_putBackupCursor_def db_deleteBackupCursor_def db_addLog_def
  json_array_size_def tbl_get_def tbl_delete_def

lemmas sample_defs =
  sample_node_def sample_page_def sample_status_def sample_throttled_def sample_world_def
  empty_db_def
  sample_storefront_def sample_cursor_def quota_error_def removed_product_def active_product_def


section \<open>The transform\<close>

text \<open>
  C7, as the claim states it, fails: two applications of the transform to the same storefront
  id and the same page record give different entities when the clock has moved between them.
\<close>

theorem transformProduct_clock_counterexample:
  "transformProduct ''shop'' ''2026-01-01'' (sample_node ''gid://shopify/Product/1'')
     \<noteq> transformProduct ''shop'' ''2026-01-02'' (sample_node ''gid://shopify/Product/1'')"
  by (simp add: transformProduct_def sample_node_def map_nodes_def)

text \<open>
  C7, amended: the transform is a function of the storefront id, the page record and the
  reading of the clock. Two applications to the same record differ at most in
  \<^verbatim>\<open>sniffer_updated_at\<close>, which is the reading, and fail alike; as an action the
  transform changes nothing but the number of clock readings taken.
\<close>

theorem transformProduct_clock_only:
  "(case transformProduct sid t1 node of
      Inl e \<Rightarrow> transformProduct sid t2 node = Inl e
    | Inr p \<Rightarrow> transformProduct sid t2 node = Inr (p\<lparr>sniffer_updated_at := t2\<rparr>))
   \<and> (snd (transform_io sid node w) = w
        \<or> snd (transform_io sid node w) = w\<lparr>reads := Suc (reads w)\<rparr>)"
  by (simp add: transformProduct_def transform_io_def Let_def split: sum.splits)

text \<open>
  C8, as the claim states it, fails: on a page record whose image collection is missing the
  transform throws a \<^verbatim>\<open>TypeError\<close>.
\<close>

theorem transformProduct_missing_collection_counterexample:
  "transformProduct ''shop'' ''2026-01-01''
     ((sample_node ''gid://shopify/Product/1'')\<lparr>g_images := None\<rparr>)
     = Inl (type_error ''nodes'')"
  by (simp add: transformProduct_def sample_node_def map_nodes_def)

text \<open>
  C8, amended: on a page record that has its image and variant collections (empty or not),
  and in each variant a price and a list of selected options, as the interfaces of the
  source require, the transform returns an entity. Its images and variants are those of the
  record, one for one; a null alt text and a null compare-at price stay null; an option
  position past the end of the selected options is null.
\<close>

theorem transformProduct_total_on_typed:
  assumes "g_images node = Some \<lparr>nodes = Some imgs\<rparr>"
    and "g_variants node = Some \<lparr>nodes = Some vs\<rparr>"
    and "list_all (\<lambda>v. gv_price v \<noteq> None \<and> selectedOptions v \<noteq> None) vs"
  shows "(case transformProduct sid t node of
            Inl e \<Rightarrow> False
          | Inr p \<Rightarrow>
              map alt (images p) = map altText imgs
              \<and> map compare_at_price (variants p)
                  = map (\<lambda>v. map_option amount (compareAtPrice v)) vs
              \<and> map option1 (variants p) = map (\<lambda>v. option_at (the (selectedOptions v)) 0) vs
              \<and> map option2 (variants p) = map (\<lambda>v. option_at (the (selectedOptions v)) 1) vs
              \<and> map option3 (variants p) = map (\<lambda>v. option_at (the (selectedOptions v)) 2) vs)
         \<and> (\<forall>opts i. length opts \<le> i \<longrightarrow> option_at opts i = None)"
proof -
  have v: "list_all (\<lambda>v. \<exists>y. transformVariant v = Inr y) vs"
    using assms(3) by (auto simp: list_all_iff transformVariant_def split: option.splits)
  have i: "list_all (\<lambda>x. \<exists>y. (Inr (transformImage x) :: exn + ProductImage) = Inr y) imgs"
    by (simp add: list_all_iff)
  have pv: "\<And>v. v \<in> set vs \<Longrightarrow>
      transformVariant v =
        Inr \<lparr>v_id = gv_id v, v_title = gv_title v, sku = gv_sku v,
             price = amount (the (gv_price v)),
             compare_at_price = map_option amount (compareAtPrice v),
             inventory_policy = None,
             weight = gv_weight v, weight_unit = weightUnit v,
             option1 = option_at (the (selectedOptions v)) 0,
             option2 = option_at (the (selectedOptions v)) 1,
             option3 = option_at (the (selectedOptions v)) 2\<rparr>"
    using assms(3) by (auto simp: list_all_iff transformVariant_def split: option.splits)
  show ?thesis
    using assms(1,2) map_throw_total[OF v] map_throw_total[OF i] pv
    by (simp add: transformProduct_def map_nodes_def Let_def option_at_def transformImage_def
        comp_def)
qed

theorem transformProduct_total_on_typed_witness:
  "(case transformProduct ''shop'' ''2026-01-01''
           ((sample_node ''gid://shopify/Product/1'')
              \<lparr>g_images := Some \<lparr>nodes = Some [sample_image]\<rparr>,
               g_variants := Some \<lparr>nodes = Some [sample_variant]\<rparr>\<rparr>) of
      Inl e \<Rightarrow> False
    | Inr p \<Rightarrow>
        map alt (images p) = [None]
        \<and> map compare_at_price (variants p) = [None]
        \<and> map option1 (variants p) = [Some ''S'']
        \<and> map option2 (variants p) = [None]
        \<and> map option3 (variants p) = [None])"
  using transformProduct_total_on_typed
    [of "(sample_node ''gid://shopify/Product/1'')
              \<lparr>g_images := Some \<lparr>nodes = Some [sample_image]\<rparr>,
               g_variants := Some \<lparr>nodes = Some [sample_variant]\<rparr>\<rparr>"
        "[sample_image]" "[sample_variant]" "''shop''" "''2026-01-01''"]
  by (simp add: sample_node_def sample_image_def sample_variant_def option_at_def
      transformProduct_def map_nodes_def transformVariant_def transformImage_def)

section \<open>Upsert of a page\<close>

text \<open>
  C10: the transform always emits \<^verbatim>\<open>removed_at = null\<close> and the key
  \<^verbatim>\<open>{storefront id}::{source id}\<close>; so after the records of a page are transformed and
  put, whatever the store held before, each record of the page is in the store under its key
  with \<^verbatim>\<open>removed_at = null\<close>: an entity that was marked removed is active again.
\<close>

theorem upsert_resurrects:
  assumes "transformAll sid ns w = (Inr ps, w1)"
    and "putProducts ps w1 = (Inr u, w2)"
    and "n \<in> set ns"
  shows "map_option removed_at (db_getProduct (sid @ ''::'' @ g_id n) (store w2)) = Some None
         \<and> (\<forall>t p. transformProduct sid t n = Inr p \<longrightarrow>
               removed_at p = None \<and> p_id p = sid @ ''::'' @ g_id n)"
proof -
  from transformAll_Inr[OF assms(1)]
  have a: "list_all2 (\<lambda>n p. p_id p = sid @ ''::'' @ g_id n \<and> (removed_at p = None)) ns ps"
    by (auto elim!: list_all2_mono)
  from find_rev_all2[where key = p_id and kof = "\<lambda>n. sid @ ''::'' @ g_id n", OF a assms(3)]
  obtain p where p: "find (\<lambda>p. p_id p = sid @ ''::'' @ g_id n) (rev ps) = Some p"
      "removed_at p = None"
    by auto
  from assms(2)
  have "products (store w2) = foldl (\<lambda>tbl p. tbl_put p_id p tbl) (products (store w1)) ps"
    by (auto simp: putProducts_def db_write_def db_call_Inr db_putProducts_def)
  with p show ?thesis
    by (auto simp: db_getProduct_def tbl_get_puts dest: transformProduct_fields)
qed

theorem upsert_resurrects_witness:
  "map_option removed_at
     (db_getProduct ''shop::gid://shopify/Product/1'' (empty_db\<lparr>products := [removed_product]\<rparr>))
     = Some (Some ''2026-03-01T00:00:00.000Z'')
   \<and> map_option removed_at
       (db_getProduct ''shop::gid://shopify/Product/1''
          (store (snd (putProducts
             (projr (fst (transformAll ''shop'' [sample_node ''gid://shopify/Product/1'']
                (sample_world (empty_db\<lparr>products := [removed_product]\<rparr>)))))
             (snd (transformAll ''shop'' [sample_node ''gid://shopify/Product/1'']
                (sample_world (empty_db\<lparr>products := [removed_product]\<rparr>))))))))
     = Some None"
  using upsert_resurrects
    [of "''shop''" "[sample_node ''gid://shopify/Product/1'']"
        "sample_world (empty_db\<lparr>products := [removed_product]\<rparr>)"
        "projr (fst (transformAll ''shop'' [sample_node ''gid://shopify/Product/1'']
                (sample_world (empty_db\<lparr>products := [removed_product]\<rparr>))))"
        "snd (transformAll ''shop'' [sample_node ''gid://shopify/Product/1'']
                (sample_world (empty_db\<lparr>products := [removed_product]\<rparr>)))"
        "()"
        "snd (putProducts
             (projr (fst (transformAll ''shop'' [sample_node ''gid://shopify/Product/1'']
                (sample_world (empty_db\<lparr>products := [removed_product]\<rparr>)))))
             (snd (transformAll ''shop'' [sample_node ''gid://shopify/Product/1'']
                (sample_world (empty_db\<lparr>products := [removed_product]\<rparr>)))))"
        "sample_node ''gid://shopify/Product/1''"]
  by (simp add: sample_node_def sample_world_def empty_db_def removed_product_def
      bind_def ret_def transform_io_def transformProduct_def map_nodes_def
      putProducts_def db_write_def db_call_def db_putProducts_def db_getProduct_def tbl_get_def
      extractShopifyId_def)

section \<open>The registry and the control calls\<close>

text \<open>
  C2: the claim is that a second start or resume for a storefront with an active engine
  starts no second run loop. The code at that input: \<^verbatim>\<open>startBackup\<close> called twice leaves
  two run loops on two engines, the registry naming only the second; \<^verbatim>\<open>resumeBackup\<close>
  after \<^verbatim>\<open>startBackup\<close> leaves two run loops on the one engine.
\<close>

theorem startBackup_twice_two_loops:
  "active_runs ''shop.myshopify.com''
     (startBackup ''shop.myshopify.com'' (startBackup ''shop.myshopify.com'' empty_process))
     = [\<lparr>engine_ref = 0, cleanup = True\<rparr>, \<lparr>engine_ref = 1, cleanup = True\<rparr>]
   \<and> map_of (activeBackups
        (startBackup ''shop.myshopify.com'' (startBackup ''shop.myshopify.com'' empty_process)))
        ''shop.myshopify.com'' = Some 1
   \<and> active_runs ''shop.myshopify.com''
        (resumeBackup ''shop.myshopify.com'' (startBackup ''shop.myshopify.com'' empty_process))
      = [\<lparr>engine_ref = 0, cleanup = True\<rparr>, \<lparr>engine_ref = 0, cleanup = False\<rparr>]"
  by (simp add: active_runs_def startBackup_def resumeBackup_def engine_resume_def
      empty_process_def map_set_def Let_def)



section \<open>Throttling\<close>


text \<open>
  A header of 310 digits is read as \<^verbatim>\<open>Infinity\<close>, which is not finite: the wait is the
  2000 ms of a header that is missing.
\<close>

lemma retry_after_not_finite:
  "parseInt (replicate 310 (CHR ''9'')) = Infinity
   \<and> waitMs (answer 429 None (Some (replicate 310 (CHR ''9'')))) = Num 2000"
  by code_simp



section \<open>Status and cursor\<close>

text \<open>
  C3, as the claim states it, fails: after a run that was throttled twice on its first page
  the storefront is partial and its backup cursor is still stored.
\<close>

theorem partial_keeps_cursor_counterexample:
  "(case run ''shop'' [sample_status 429 None, sample_status 429 None] (sample_world empty_db) of
      Some (Inr x, w) \<Rightarrow>
        status_of ''shop'' (store w) = Some Partial \<and> has_cursor ''shop'' (store w)
    | _ \<Rightarrow> False)"
  by code_simp

text \<open>
  C3, amended: when \<^verbatim>\<open>run\<close> returns, the status stored for its storefront, if any, is
  paused, partial or complete; paused comes with a cursor and complete without one. Partial
  does not decide the cursor: after a cancel it is deleted, after throttling twice, a status
  other than 200 or a body without data it is kept for resuming.
\<close>

theorem status_cursor_after_run:
  assumes "run sid evs w = Some (Inr x, w')"
  shows "status_of sid (store w') \<in> {None, Some Paused, Some Partial, Some Complete}
         \<and> (status_of sid (store w') = Some Paused \<longrightarrow> has_cursor sid (store w'))
         \<and> (status_of sid (store w') = Some Complete \<longrightarrow> \<not> has_cursor sid (store w'))
         \<and> (\<forall>s seenIds. x = Ended s seenIds \<longrightarrow>
               status_of sid (store w') = Some (status_after s)
               \<and> has_cursor sid (store w') = (s \<noteq> StopCancelled \<and> s \<noteq> StopComplete))"
proof (cases x)
  case (Caught error)
  with assms obtain w1 u where "on_error sid error w1 = (Inr u, w')"
    by (auto simp: run_def split: option.splits prod.splits sum.splits)
  from on_error_Inr(1)[OF this] Caught show ?thesis
    by (auto simp: partial_if_stored_def status_of_def split: option.splits)
next
  case (Ended s seenIds)
  with assms have rb: "run_body sid evs w = Some (Inr (s, seenIds), w')"
    by (auto simp: run_def split: option.splits prod.splits sum.splits)
  from rb obtain sf w1 c w2 ex w3 where
    ls: "load_storefront sid w = (Inr sf, w1)" and lc: "load_cursor sid w1 = (Inr c, w2)"
    and lp: "loop sid evs c {} w2 = Some (Inr ex, w3)"
    and fin: "ex = LReturn s seenIds \<and> w' = w3
         \<or> (\<exists>c'. ex = LBreak c' seenIds \<and> post_loop sid sf c' seenIds w3 = (Inr (s, seenIds), w'))"
    by (rule run_body_Inr)
  note sf = load_storefront_Inr(1,2)[OF ls]
  from load_cursor_Inr(1,2)[OF lc] sf(1)
  have e2: "db_getStorefront sid (store w2) \<noteq> None" "db_getBackupCursor sid (store w2) \<noteq> None"
    by (simp_all add: db_getStorefront_def)
  note l3 = loop_status[OF lp e2]
  have main: "status_of sid (store w') = Some (status_after s)
               \<and> has_cursor sid (store w') = (s \<noteq> StopCancelled \<and> s \<noteq> StopComplete)"
    using fin
  proof (elim disjE conjE exE)
    assume "ex = LReturn s seenIds" "w' = w3"
    with l3 show ?thesis
      by (auto simp: partial_if_stored_def status_of_def has_cursor_def split: option.splits)
  next
    fix c'
    assume ex: "ex = LBreak c' seenIds"
      and pl: "post_loop sid sf c' seenIds w3 = (Inr (s, seenIds), w')"
    from post_loop_Inr[OF pl]
    consider (cancel) "s = StopCancelled" "finish_cancelled sid w3 = (Inr (), w')"
      | (pause) "s = StopPaused" "finish_paused sid sf c' w3 = (Inr (), w')"
      | (complete) "s = StopComplete" "finish_complete sid sf seenIds w3 = (Inr (), w')"
      by blast
    then show ?thesis
    proof cases
      case cancel
      from finish_cancelled_Inr(1,2,4)[OF cancel(2)] l3 cancel(1) show ?thesis
        by (auto simp: status_of_def has_cursor_def partial_if_stored_def split: option.splits)
    next
      case pause
      from finish_paused_Inr(1,2)[OF pause(2) sf(2)] l3 pause(1) show ?thesis
        by (simp add: status_of_def has_cursor_def db_getBackupCursor_def)
    next
      case complete
      from finish_complete_Inr[OF complete(2) sf(2)] complete(1) show ?thesis
        by (auto simp: status_of_def has_cursor_def)
    qed
  qed
  with Ended show ?thesis
    by (cases s) (auto simp: status_of_def)
qed

theorem status_cursor_after_run_witness:
  "(case run ''shop'' [(sample_page [''a''] True (Some ''c1''))\<lparr>signals := [PauseReq]\<rparr>]
           (sample_world empty_db) of
      Some (Inr x, w') \<Rightarrow>
        x = Ended StopPaused {''shop::a''}
        \<and> status_of ''shop'' (store w') = Some Paused \<and> has_cursor ''shop'' (store w')
    | _ \<Rightarrow> False)"
  using status_cursor_after_run
    [where sid = "''shop''"
       and evs = "[(sample_page [''a''] True (Some ''c1''))\<lparr>signals := [PauseReq]\<rparr>]"
       and w = "sample_world empty_db"
       and x = "projr (fst (the (run ''shop''
                  [(sample_page [''a''] True (Some ''c1''))\<lparr>signals := [PauseReq]\<rparr>]
                  (sample_world empty_db))))"
       and w' = "snd (the (run ''shop''
                  [(sample_page [''a''] True (Some ''c1''))\<lparr>signals := [PauseReq]\<rparr>]
                  (sample_world empty_db)))"]
  by (simp add: run_defs io_defs db_defs sample_defs loop.simps Let_def)

section \<open>Soft delete\<close>

text \<open>
  C1, as the claim states it, fails in its last part: a run that ends partial has modified
  the \<^verbatim>\<open>removed_at\<close> of an entity. The entity was marked removed, the first page
  of the run brought it back, and the second fetch failed with status 500.
\<close>

theorem partial_run_resurrects_counterexample:
  "map removed_at (products (empty_db\<lparr>products := [removed_product]\<rparr>))
     = [Some ''2026-03-01T00:00:00.000Z'']
   \<and> (case run ''shop''
             [sample_page [''gid://shopify/Product/1''] True (Some ''c1''),
              sample_status 500 None]
             (sample_world (empty_db\<lparr>products := [removed_product]\<rparr>)) of
        Some (Inr (Ended s seenIds), w) \<Rightarrow>
          s = StopHttp \<and> status_of ''shop'' (store w) = Some Partial
          \<and> map removed_at (products (store w)) = [None]
      | _ \<Rightarrow> False)"
  by code_simp

text \<open>
  C1, amended: after a run that starts a traversal (it finds no stored cursor token to
  resume from) and completes, the entities of the storefront with \<^verbatim>\<open>removed_at = null\<close>
  are exactly those with an id seen in the run, and every entity of the storefront that was
  not seen and had \<^verbatim>\<open>removed_at = null\<close> has it set to the completion time, which is
  also the \<^verbatim>\<open>last_backup_at\<close> of the storefront. After a run that stops at a failed
  fetch, a pause or a cancel, no entity is marked removed: an entity with an id not seen is
  as it was, and each entity with an id seen has \<^verbatim>\<open>removed_at = null\<close>, whatever it
  had before.
\<close>

theorem soft_delete_after_run:
  assumes "run sid evs w = Some (Inr (Ended s seenIds), w')"
  shows "(s = StopComplete \<and> \<not> resuming sid (store w) \<longrightarrow>
            (\<forall>k. (\<exists>p. db_getProduct k (store w') = Some p \<and> p_storefront_id p = sid
                        \<and> removed_at p = None) \<longleftrightarrow> k \<in> seenIds)
            \<and> (\<exists>t. map_option last_backup_at (db_getStorefront sid (store w')) = Some (Some t)
                  \<and> (\<forall>k p. db_getProduct k (store w) = Some p \<and> p_storefront_id p = sid
                            \<and> k \<notin> seenIds \<and> removed_at p = None \<longrightarrow>
                          db_getProduct k (store w') = Some (p\<lparr>removed_at := Some t\<rparr>))))
         \<and> (s \<noteq> StopComplete \<longrightarrow>
            (\<forall>k. k \<notin> seenIds \<longrightarrow> db_getProduct k (store w') = db_getProduct k (store w))
            \<and> (\<forall>k \<in> seenIds. map_option removed_at (db_getProduct k (store w')) = Some None))"
proof -
  note rb = run_Ended[OF assms]
  from rb obtain sf w1 c w2 ex w3 where
    ls: "load_storefront sid w = (Inr sf, w1)" and lc: "load_cursor sid w1 = (Inr c, w2)"
    and lp: "loop sid evs c {} w2 = Some (Inr ex, w3)"
    and fin: "ex = LReturn s seenIds \<and> w' = w3
         \<or> (\<exists>c'. ex = LBreak c' seenIds \<and> post_loop sid sf c' seenIds w3 = (Inr (s, seenIds), w'))"
    by (rule run_body_Inr)
  note sf = load_storefront_Inr(2)[OF ls]
  have p2: "products (store w2) = products (store w)"
    using load_storefront_Inr(3)[OF ls] load_cursor_Inr(3)[OF lc] by simp
  have "seen_inv (products (store w)) sid {} (products (store w2))"
    by (simp add: seen_inv_def p2)
  from loop_seen[OF lp this]
  have i3: "seen_inv (products (store w)) sid (seen_of ex) (products (store w3))" .
  from fin have so: "seen_of ex = seenIds"
    by auto
  note inv = i3[unfolded so]
  have keep: "(\<forall>k. k \<notin> seenIds \<longrightarrow> db_getProduct k (store w') = db_getProduct k (store w))
      \<and> (\<forall>k \<in> seenIds. map_option removed_at (db_getProduct k (store w')) = Some None)"
    if same: "products (store w') = products (store w3)"
  proof (intro conjI allI impI ballI)
    fix k assume "k \<notin> seenIds"
    from seen_inv_unseen[OF inv this] same
    show "db_getProduct k (store w') = db_getProduct k (store w)"
      by (simp add: db_getProduct_def)
  next
    fix k assume "k \<in> seenIds"
    from seen_inv_seen[OF inv this] obtain p where
      "tbl_get p_id (products (store w3)) k = Some p" "removed_at p = None"
      by blast
    with same show "map_option removed_at (db_getProduct k (store w')) = Some None"
      by (simp add: db_getProduct_def)
  qed
  from fin show ?thesis
  proof (elim disjE conjE exE)
    assume ex: "ex = LReturn s seenIds" and w: "w' = w3"
    have e2: "db_getStorefront sid (store w2) \<noteq> None" "db_getBackupCursor sid (store w2) \<noteq> None"
      using load_storefront_Inr(1)[OF ls] load_cursor_Inr(1,2)[OF lc]
      by (simp_all add: db_getStorefront_def)
    from loop_status[OF lp e2] ex have "s \<noteq> StopComplete"
      by auto
    with keep w show ?thesis by simp
  next
    fix c'
    assume ex: "ex = LBreak c' seenIds"
      and pl: "post_loop sid sf c' seenIds w3 = (Inr (s, seenIds), w')"
    from post_loop_Inr[OF pl]
    consider (cancel) "s = StopCancelled" "finish_cancelled sid w3 = (Inr (), w')"
      | (pause) "s = StopPaused" "finish_paused sid sf c' w3 = (Inr (), w')"
      | (complete) "s = StopComplete" "finish_complete sid sf seenIds w3 = (Inr (), w')"
      by blast
    then show ?thesis
    proof cases
      case cancel
      from keep[OF finish_cancelled_Inr(3)[OF cancel(2)]] cancel(1) show ?thesis by simp
    next
      case pause
      from keep[OF finish_paused_Inr(3)[OF pause(2) sf]] pause(1) show ?thesis by simp
    next
      case complete
      from finish_complete_Inr(1)[OF complete(2) sf] obtain t n z where
        st: "db_getStorefront sid (store w')
               = Some (sf\<lparr>backup_status := Complete, last_backup_at := Some t,
                          product_count := n, size_bytes := z\<rparr>)"
        and pr: "products (store w') = products (db_markProductsRemoved sid seenIds t (store w3))"
        by blast
      let ?mark = "\<lambda>p. if p_storefront_id p = sid \<and> p_id p \<notin> seenIds \<and> removed_at p = None
                      then p\<lparr>removed_at := Some t\<rparr> else p"
      have g: "\<And>k. db_getProduct k (store w') = map_option ?mark (tbl_get p_id (products (store w3)) k)"
        by (simp add: db_getProduct_def pr getProduct_marked)
      have a: "(\<exists>p. db_getProduct k (store w') = Some p \<and> p_storefront_id p = sid
                        \<and> removed_at p = None) \<longleftrightarrow> k \<in> seenIds" for k
      proof
        assume "\<exists>p. db_getProduct k (store w') = Some p \<and> p_storefront_id p = sid
                        \<and> removed_at p = None"
        then obtain q where q: "tbl_get p_id (products (store w3)) k = Some q"
          and m: "p_storefront_id (?mark q) = sid" "removed_at (?mark q) = None"
          unfolding g by (cases "tbl_get p_id (products (store w3)) k") auto
        from tbl_get_key[OF q] have "p_id q = k" .
        with m show "k \<in> seenIds"
          by (cases "p_storefront_id q = sid \<and> p_id q \<notin> seenIds \<and> removed_at q = None") auto
      next
        assume k: "k \<in> seenIds"
        from seen_inv_seen[OF inv k] obtain p where p: "tbl_get p_id (products (store w3)) k = Some p"
          "removed_at p = None" "p_storefront_id p = sid"
          by blast
        from tbl_get_key[OF p(1)] k have "?mark p = p" by simp
        with p show "\<exists>p. db_getProduct k (store w') = Some p \<and> p_storefront_id p = sid
                        \<and> removed_at p = None"
          unfolding g by simp
      qed
      have b: "db_getProduct k (store w') = Some (p\<lparr>removed_at := Some t\<rparr>)"
        if h: "db_getProduct k (store w) = Some p \<and> p_storefront_id p = sid
                            \<and> k \<notin> seenIds \<and> removed_at p = None" for k p
      proof -
        from h have k: "k \<notin> seenIds" by simp
        from seen_inv_unseen[OF inv k] h have q: "tbl_get p_id (products (store w3)) k = Some p"
          by (simp add: db_getProduct_def)
        from h tbl_get_key[OF q] have "?mark p = p\<lparr>removed_at := Some t\<rparr>" by simp
        with q show ?thesis unfolding g by simp
      qed
      have l: "map_option last_backup_at (db_getStorefront sid (store w')) = Some (Some t)"
        by (simp add: st)
      from a b l have "(\<forall>k. (\<exists>p. db_getProduct k (store w') = Some p \<and> p_storefront_id p = sid
                        \<and> removed_at p = None) \<longleftrightarrow> k \<in> seenIds)
            \<and> (\<exists>t. map_option last_backup_at (db_getStorefront sid (store w')) = Some (Some t)
                  \<and> (\<forall>k p. db_getProduct k (store w) = Some p \<and> p_storefront_id p = sid
                            \<and> k \<notin> seenIds \<and> removed_at p = None \<longrightarrow>
                          db_getProduct k (store w') = Some (p\<lparr>removed_at := Some t\<rparr>)))"
        by blast
      with complete(1) show ?thesis by simp
    qed
  qed
qed

theorem soft_delete_after_run_witness:
  "(case run ''shop'' [sample_page [''a'', ''b''] False None]
           (sample_world (empty_db\<lparr>products :=
              [active_product ''a'', active_product ''b'', active_product ''c'']\<rparr>)) of
      Some (Inr (Ended s seenIds), w') \<Rightarrow>
        s = StopComplete \<and> seenIds = {''shop::a'', ''shop::b''}
        \<and> map (\<lambda>p. (p_id p, removed_at p)) (products (store w'))
            = [(''shop::a'', None), (''shop::b'', None), (''shop::c'', Some (show_nat 4))]
        \<and> map last_backup_at (storefronts (store w')) = [Some (show_nat 4)]
    | _ \<Rightarrow> False)"
  using soft_delete_after_run
    [where sid = "''shop''" and evs = "[sample_page [''a'', ''b''] False None]"
       and w = "sample_world (empty_db\<lparr>products :=
              [active_product ''a'', active_product ''b'', active_product ''c'']\<rparr>)"
       and s = StopComplete and seenIds = "{''shop::a'', ''shop::b''}"
       and w' = "snd (the (run ''shop'' [sample_page [''a'', ''b''] False None]
           (sample_world (empty_db\<lparr>products :=
              [active_product ''a'', active_product ''b'', active_product ''c'']\<rparr>))))"]
  by (simp add: run_defs io_defs db_defs sample_defs loop.simps Let_def insert_commute
      eval_nat_numeral)

text \<open>
  A run that resumes from a stored cursor token sees only the pages after the token, and on
  completion marks as removed what the pages before it brought: here the first run is
  paused after its first page, and the run that resumes it fetches the second, last page.
\<close>

theorem resumed_run_removes_earlier_pages:
  "(case run ''shop'' [(sample_page [''a''] True (Some ''c1''))\<lparr>signals := [PauseReq]\<rparr>]
           (sample_world empty_db) of
      Some (Inr x, w1) \<Rightarrow>
        (case run ''shop'' [sample_page [''b''] False None] (w1\<lparr>paused := False\<rparr>) of
           Some (Inr (Ended s seenIds), w2) \<Rightarrow>
             resuming ''shop'' (store w1) \<and> s = StopComplete
             \<and> map (\<lambda>p. (p_id p, removed_at p = None)) (products (store w2))
                 = [(''shop::a'', False), (''shop::b'', True)]
         | _ \<Rightarrow> False)
    | _ \<Rightarrow> False)"
  by code_simp

section \<open>Failures\<close>

text \<open>
  C6, as the claim states it, fails: when the first write of the storefront record of a new
  storefront throws a \<^verbatim>\<open>QuotaExceededError\<close>, \<^verbatim>\<open>run\<close> returns, but
  \<^verbatim>\<open>markPartial\<close> finds no record to mark and no status is persisted.
\<close>

theorem quota_without_storefront_counterexample:
  "(case run ''shop'' []
           ((sample_world empty_db)\<lparr>faults := [None, Some quota_error]\<rparr>) of
      Some (Inr x, w) \<Rightarrow>
        x = Caught quota_error \<and> storefronts (store w) = []
        \<and> status_of ''shop'' (store w) = None
    | _ \<Rightarrow> False)"
  by code_simp

text \<open>
  C6, amended: \<^verbatim>\<open>run\<close> returns when the events end with two that do not continue the
  loop. When the \<^verbatim>\<open>try\<close> block ends without a throw, \<^verbatim>\<open>run\<close> returns in the same
  state. When it throws and none of the three calls of the store that the \<^verbatim>\<open>catch\<close>
  block may make fails, \<^verbatim>\<open>run\<close> returns without a throw: the products and cursors
  are as at the throw, the storefront, if stored, is marked partial, a log entry of level
  error is added, with the quota message and a notification for a
  \<^verbatim>\<open>QuotaExceededError\<close>, and with the message of the error and no notification
  otherwise.
\<close>

theorem run_absorbs_failure:
  "(\<not> continuing a \<and> \<not> continuing b \<longrightarrow> run sid (pre @ [a, b]) w \<noteq> None)
   \<and> (run_body sid evs w = Some (r, w1) \<and> (\<forall>e. Some e \<notin> set (take 3 (faults w1))) \<longrightarrow>
        (case r of
           Inr (s, seenIds) \<Rightarrow> run sid evs w = Some (Inr (Ended s seenIds), w1)
         | Inl error \<Rightarrow>
             (case run sid evs w of
                Some (Inr x, w2) \<Rightarrow>
                  x = Caught error
                  \<and> products (store w2) = products (store w1)
                  \<and> backup_cursors (store w2) = backup_cursors (store w1)
                  \<and> db_getStorefront sid (store w2)
                      = map_option (\<lambda>sf. sf\<lparr>backup_status := Partial\<rparr>)
                          (db_getStorefront sid (store w1))
                  \<and> map (\<lambda>e. (l_storefront_id e, level e, l_message e)) (logs (store w2))
                      = map (\<lambda>e. (l_storefront_id e, level e, l_message e)) (logs (store w1))
                        @ [(sid, LError,
                            if is_quota_error error then ''Storage quota exceeded''
                            else ''Unexpected error during backup: '' @ error_message error)]
                  \<and> trace w2 = trace w1
                      @ (if is_quota_error error
                         then [Notify ''Backup stopped''
                                 (''Backup stopped: Storage quota exceeded for '' @ sid
                                    @ ''. Open the extension to review.'')]
                         else [])
              | _ \<Rightarrow> False)))"
proof (intro conjI impI)
  assume "\<not> continuing a \<and> \<not> continuing b"
  then have "run_body sid (pre @ [a, b]) w \<noteq> None"
    by (simp add: run_body_returns)
  then show "run sid (pre @ [a, b]) w \<noteq> None"
    by (auto simp: run_def split: option.splits prod.splits sum.splits)
next
  assume h: "run_body sid evs w = Some (r, w1) \<and> (\<forall>e. Some e \<notin> set (take 3 (faults w1)))"
  show "case r of
           Inr (s, seenIds) \<Rightarrow> run sid evs w = Some (Inr (Ended s seenIds), w1)
         | Inl error \<Rightarrow>
             (case run sid evs w of
                Some (Inr x, w2) \<Rightarrow>
                  x = Caught error
                  \<and> products (store w2) = products (store w1)
                  \<and> backup_cursors (store w2) = backup_cursors (store w1)
                  \<and> db_getStorefront sid (store w2)
                      = map_option (\<lambda>sf. sf\<lparr>backup_status := Partial\<rparr>)
                          (db_getStorefront sid (store w1))
                  \<and> map (\<lambda>e. (l_storefront_id e, level e, l_message e)) (logs (store w2))
                      = map (\<lambda>e. (l_storefront_id e, level e, l_message e)) (logs (store w1))
                        @ [(sid, LError,
                            if is_quota_error error then ''Storage quota exceeded''
                            else ''Unexpected error during backup: '' @ error_message error)]
                  \<and> trace w2 = trace w1
                      @ (if is_quota_error error
                         then [Notify ''Backup stopped''
                                 (''Backup stopped: Storage quota exceeded for '' @ sid
                                    @ ''. Open the extension to review.'')]
                         else [])
              | _ \<Rightarrow> False)"
  proof (cases r)
    case (Inr p)
    with h show ?thesis by (cases p) (simp add: run_def)
  next
    case (Inl error)
    from h have f: "\<forall>e. Some e \<notin> set (take 3 (faults w1))" by simp
    from on_error_ok[OF f, of sid error] obtain w2 where
      oe: "on_error sid error w1 = (Inr (), w2)" and rest: "products (store w2) = products (store w1)"
        "backup_cursors (store w2) = backup_cursors (store w1)"
        "db_getStorefront sid (store w2)
               = map_option (\<lambda>sf. sf\<lparr>backup_status := Partial\<rparr>) (db_getStorefront sid (store w1))"
        "map (\<lambda>e. (l_storefront_id e, level e, l_message e)) (logs (store w2))
               = map (\<lambda>e. (l_storefront_id e, level e, l_message e)) (logs (store w1))
                 @ [(sid, LError,
                     if is_quota_error error then ''Storage quota exceeded''
                     else ''Unexpected error during backup: '' @ error_message error)]"
        "trace w2 = trace w1
               @ (if is_quota_error error
                  then [Notify ''Backup stopped''
                          (''Backup stopped: Storage quota exceeded for '' @ sid
                             @ ''. Open the extension to review.'')]
                  else [])"
      by blast
    from h Inl oe have "run sid evs w = Some (Inr (Caught error), w2)"
      by (simp add: run_def)
    with Inl rest show ?thesis by simp
  qed
qed

theorem run_absorbs_failure_witness:
  "run ''shop'' [sample_status 500 None, sample_status 500 None] (sample_world empty_db) \<noteq> None
   \<and> (case run ''shop''
             [sample_page [''a''] True (Some ''c1''), sample_page [''b''] False None]
             ((sample_world empty_db)
                \<lparr>faults := [None, None, None, None, None, None, Some quota_error]\<rparr>) of
        Some (Inr x, w2) \<Rightarrow>
          x = Caught quota_error
          \<and> map p_id (products (store w2)) = [''shop::a'']
          \<and> status_of ''shop'' (store w2) = Some Partial
          \<and> map l_message (logs (store w2)) = [''Storage quota exceeded'']
          \<and> trace w2 =
              [Fetch (graphql_url ''shop'') None, Progress 1 0, Delay (Num 500),
               Fetch (graphql_url ''shop'') (Some ''c1''),
               Notify ''Backup stopped''
                 ''Backup stopped: Storage quota exceeded for shop. Open the extension to review.'']
      | _ \<Rightarrow> False)"
  using run_absorbs_failure
    [where a = "sample_status 500 None" and b = "sample_status 500 None" and pre = "[]"
       and sid = "''shop''" and w = "sample_world empty_db"]
    run_absorbs_failure
    [where a = "sample_status 500 None" and b = "sample_status 500 None" and pre = "[]"
       and sid = "''shop''"
       and evs = "[sample_page [''a''] True (Some ''c1''), sample_page [''b''] False None]"
       and w = "(sample_world empty_db)
                \<lparr>faults := [None, None, None, None, None, None, Some quota_error]\<rparr>"
       and r = "Inl quota_error"
       and ?w1.0 = "snd (the (run_body ''shop''
             [sample_page [''a''] True (Some ''c1''), sample_page [''b''] False None]
             ((sample_world empty_db)
                \<lparr>faults := [None, None, None, None, None, None, Some quota_error]\<rparr>)))"]
  by (simp add: run_defs io_defs db_defs sample_defs loop.simps Let_def continuing_def)

section \<open>A fresh backup of three pages\<close>

text \<open>
  C5: the claim is that in a fresh backup of three pages of two records each
  \<^verbatim>\<open>total_products\<close> is set from the first page to 6 and the progress callbacks get it
  as the estimate. The code at that input: the run completes with six products, none
  removed, the storefront complete and the cursor deleted, but every progress callback gets
  the estimate 0; and the same run paused after its last page leaves the cursor with
  \<^verbatim>\<open>products_fetched = 6\<close> and \<^verbatim>\<open>total_products = null\<close>.
\<close>

theorem fresh_backup_three_pages:
  "(case run ''shop''
           [sample_page [''a'', ''b''] True (Some ''c1''),
            sample_page [''c'', ''d''] True (Some ''c2''),
            sample_page [''e'', ''f''] False None]
           (sample_world empty_db) of
      Some (Inr (Ended s seenIds), w) \<Rightarrow>
        s = StopComplete
        \<and> map backup_status (storefronts (store w)) = [Complete]
        \<and> map removed_at (products (store w)) = [None, None, None, None, None, None]
        \<and> backup_cursors (store w) = []
        \<and> trace w =
            [Fetch (graphql_url ''shop'') None, Progress 2 0, Delay (Num 500),
             Fetch (graphql_url ''shop'') (Some ''c1''), Progress 4 0, Delay (Num 500),
             Fetch (graphql_url ''shop'') (Some ''c2''), Progress 6 0,
             Notify ''Backup complete'' (complete_message ''shop'' 6)]
    | _ \<Rightarrow> False)
   \<and> (case run ''shop''
           [sample_page [''a'', ''b''] True (Some ''c1''),
            sample_page [''c'', ''d''] True (Some ''c2''),
            (sample_page [''e'', ''f''] False None)\<lparr>signals := [PauseReq]\<rparr>]
           (sample_world empty_db) of
      Some (Inr (Ended s seenIds), w) \<Rightarrow>
        s = StopPaused
        \<and> map (\<lambda>c. (products_fetched c, total_products c)) (backup_cursors (store w))
            = [(6, None)]
    | _ \<Rightarrow> False)"
  by code_simp

end
